theory Spec2Isabelle
  imports Complex_Main "HOL-Library.AList"
begin


section \<open>The shared image cache (\<^verbatim>\<open>ImageCache\<close> in src/text/TextItem.js)\<close>

text \<open>
  \<^verbatim>\<open>ImageCache\<close> is an object literal with three properties: \<^verbatim>\<open>_cache\<close>, a JavaScript
  \<^verbatim>\<open>Map\<close> from URL strings to entries \<^verbatim>\<open>{image, timestamp}\<close>; \<^verbatim>\<open>_order\<close>, an array of
  URLs, least recently used first; and \<^verbatim>\<open>_maxSize\<close>, the constant 10.

  A JavaScript \<^verbatim>\<open>Map\<close> keeps its keys in insertion order, \<^verbatim>\<open>Map.set\<close> on a key that is
  present replaces the value in place and \<^verbatim>\<open>Map.delete\<close> drops the key. It is modelled as
  an association list, so that "one entry per key" is a property to be proved of the
  operations rather than a consequence of the type chosen for the model.
\<close>

type_synonym url = string

record 'img entry =
  image :: 'img
  timestamp :: nat

type_synonym 'img js_map = "(url \<times> 'img entry) list"

definition Map_get :: "'img js_map \<Rightarrow> url \<Rightarrow> 'img entry option" where
  "Map_get m k = map_of m k"

definition Map_has :: "'img js_map \<Rightarrow> url \<Rightarrow> bool" where
  "Map_has m k = (map_of m k \<noteq> None)"

definition Map_set :: "'img js_map \<Rightarrow> url \<Rightarrow> 'img entry \<Rightarrow> 'img js_map" where
  "Map_set m k v = AList.update k v m"

definition Map_delete :: "'img js_map \<Rightarrow> url \<Rightarrow> 'img js_map" where
  "Map_delete m k = AList.delete k m"

text \<open>
  \<^verbatim>\<open>Array.prototype.indexOf\<close>: the first position that holds the value, or \<open>-1\<close>.
  \<^verbatim>\<open>splice(index, 1)\<close> removes the element at that position.
\<close>

fun indexOf :: "'a list \<Rightarrow> 'a \<Rightarrow> int" where
  "indexOf [] x = - 1"
| "indexOf (y # ys) x =
     (if y = x then 0 else (let i = indexOf ys x in if i > - 1 then i + 1 else - 1))"

definition splice1 :: "'a list \<Rightarrow> int \<Rightarrow> 'a list" where
  "splice1 xs index = take (nat index) xs @ drop (Suc (nat index)) xs"

record 'img ImageCache =
  cache :: "'img js_map"
  order :: "url list"

definition maxSize :: nat where
  "maxSize = 10"

definition ImageCache_init :: "'img ImageCache" where
  "ImageCache_init = \<lparr>cache = [], order = []\<rparr>"

text \<open>
  \<^verbatim>\<open>get\<close> (lines 19-31). The entry found in the map is an object, hence truthy; the
  recency update removes the first occurrence of the URL from \<^verbatim>\<open>_order\<close> (when there is
  one) and pushes the URL at the end. The result is the image and the cache after the call.
\<close>

definition ImageCache_get :: "'img ImageCache \<Rightarrow> url \<Rightarrow> 'img option \<times> 'img ImageCache" where
  "ImageCache_get c u =
     (case Map_get (cache c) u of
        Some cachedEntry \<Rightarrow>
          (let index = indexOf (order c) u;
               spliced = (if index > - 1 then splice1 (order c) index else order c)
           in (Some (image cachedEntry), c\<lparr>order := spliced @ [u]\<rparr>))
      | None \<Rightarrow> (None, c))"

text \<open>
  The loop of \<^verbatim>\<open>set\<close> (lines 35-38): while \<^verbatim>\<open>_order.length >= _maxSize\<close>, shift the oldest
  URL off \<^verbatim>\<open>_order\<close> and delete it from the map. The function also returns the URLs it
  deleted, oldest first, so that evictions can be observed. With \<^verbatim>\<open>_maxSize\<close> = 10 the array
  is not empty whenever the loop condition holds; the empty case is listed for totality.
\<close>

function shift_oldest :: "'img ImageCache \<Rightarrow> url list \<times> 'img ImageCache" where
  "shift_oldest c =
     (if length (order c) \<ge> maxSize then
        (case order c of
           [] \<Rightarrow> ([], c)
         | oldest # rest \<Rightarrow>
             (let (evicted, c') =
                    shift_oldest (c\<lparr>order := rest, cache := Map_delete (cache c) oldest\<rparr>)
              in (oldest # evicted, c')))
      else ([], c))"
  by pat_completeness auto
termination
  by (relation "measure (\<lambda>c. length (order c))") auto

text \<open>
  \<^verbatim>\<open>set\<close> (lines 33-42): after the loop, store \<^verbatim>\<open>{image, timestamp: Date.now()}\<close> under the
  URL and push the URL on \<^verbatim>\<open>_order\<close>. The clock reading is a parameter.
\<close>

definition ImageCache_set :: "'img ImageCache \<Rightarrow> url \<Rightarrow> 'img \<Rightarrow> nat \<Rightarrow> 'img ImageCache" where
  "ImageCache_set c u img now =
     (let c1 = snd (shift_oldest c)
      in c1\<lparr>cache := Map_set (cache c1) u \<lparr>image = img, timestamp = now\<rparr>,
             order := order c1 @ [u]\<rparr>)"

definition evicted_by_set :: "'img ImageCache \<Rightarrow> url list" where
  "evicted_by_set c = fst (shift_oldest c)"

definition ImageCache_has :: "'img ImageCache \<Rightarrow> url \<Rightarrow> bool" where
  "ImageCache_has c u = Map_has (cache c) u"

text \<open>The URLs resident in the cache, in the map's own order.\<close>

definition resident :: "'img ImageCache \<Rightarrow> url list" where
  "resident c = map fst (cache c)"

text \<open>Sequences of cache operations, for statements about every reachable cache.\<close>

datatype 'img cache_op = Get url | Set url 'img nat | Has url

fun apply_cache_op :: "'img ImageCache \<Rightarrow> 'img cache_op \<Rightarrow> 'img ImageCache" where
  "apply_cache_op c (Get u) = snd (ImageCache_get c u)"
| "apply_cache_op c (Set u img now) = ImageCache_set c u img now"
| "apply_cache_op c (Has u) = c"

definition run_cache_ops :: "'img cache_op list \<Rightarrow> 'img ImageCache" where
  "run_cache_ops ops = foldl apply_cache_op ImageCache_init ops"

text \<open>
  A run of insertions, reporting for each \<^verbatim>\<open>set\<close> the URLs it evicted. Every URL \<open>u\<close> is
  stored with the image \<open>img u\<close>; the clock starts at \<open>now\<close> and ticks once per call.
\<close>

fun insert_all :: "(url \<Rightarrow> 'img) \<Rightarrow> nat \<Rightarrow> 'img ImageCache \<Rightarrow> url list
    \<Rightarrow> url list list \<times> 'img ImageCache" where
  "insert_all img now c [] = ([], c)"
| "insert_all img now c (u # us) =
     (let (evs, c') = insert_all img (Suc now) (ImageCache_set c u (img u) now) us
      in (evicted_by_set c # evs, c'))"


section \<open>Texture loading (\<^verbatim>\<open>TextItem.setTextureFill\<close>, \<^verbatim>\<open>CompoundPath.setFillImage\<close>)\<close>

text \<open>
  The source of CompoundPath, and an older copy of PointText, follow the example page in
  examples/Text/TextureFill.html; "the listing" below is that file, with its line numbers.
  Line numbers without a file are those of src/text/TextItem.js.

  The argument of the setters is a JavaScript value used as a URL: \<open>None\<close> stands for
  \<^verbatim>\<open>null\<close> and \<^verbatim>\<open>undefined\<close>, \<open>Some s\<close> for the string \<open>s\<close>. It is falsy when it is absent or
  the empty string.
\<close>

definition truthy :: "string option \<Rightarrow> bool" where
  "truthy u = (case u of None \<Rightarrow> False | Some s \<Rightarrow> s \<noteq> [])"

text \<open>
  An \<^verbatim>\<open>Image\<close> element created by \<^verbatim>\<open>new self.Image()\<close>: its identity and its \<^verbatim>\<open>src\<close>.
\<close>

record Image =
  ident :: nat
  src :: url

text \<open>
  What a setter does besides writing fields: \<^verbatim>\<open>_changed(Change.STYLE)\<close>, an event
  delivered through \<^verbatim>\<open>emit\<close>, and the network fetch started by assigning \<^verbatim>\<open>image.src\<close>.
\<close>

datatype effect = StyleChanged | Emitted string | FetchStarted url

text \<open>
  The state the setters read and write. \<open>textureFill\<close> is \<^verbatim>\<open>_textureFill\<close> of a text item
  and \<^verbatim>\<open>_fillImage\<close> of a compound path; \<open>textureFillUrl\<close> is \<^verbatim>\<open>_textureFillUrl\<close>, which only
  the text item has. \<open>hasView\<close> and \<open>responds\<close> are the answers of \<^verbatim>\<open>getView()\<close> and
  \<^verbatim>\<open>responds(type)\<close>. \<open>inFlight\<close> lists the images whose \<^verbatim>\<open>load\<close> and \<^verbatim>\<open>error\<close> handlers were
  attached by \<^verbatim>\<open>DomEvent.add\<close> and have not fired yet, each with the URL its handler closed
  over. \<open>effects\<close> is the log of side effects, oldest first.
\<close>

record world =
  textureFill :: "Image option"
  textureFillUrl :: "string option"
  loaded :: bool
  hasView :: bool
  responds :: "string \<Rightarrow> bool"
  imageCache :: "Image ImageCache"
  inFlight :: "(Image \<times> url) list"
  nextIdent :: nat
  effects :: "effect list"

definition changed :: "world \<Rightarrow> world" where
  "changed w = w\<lparr>effects := effects w @ [StyleChanged]\<rparr>"

text \<open>The local function \<^verbatim>\<open>emit\<close> of both setters; \<open>type\<close> is \<^verbatim>\<open>event.type\<close>.\<close>

definition emit :: "string \<Rightarrow> world \<Rightarrow> world" where
  "emit type w =
     (if hasView w \<and> responds w type then w\<lparr>effects := effects w @ [Emitted type]\<rparr> else w)"

text \<open>
  The part of the setters after the cache lookup (TextItem.js lines 173-202, the same text
  in CompoundPath): on a hit, bind the cached image at once; on a miss create the image,
  start the fetch, set \<^verbatim>\<open>_loaded\<close> to \<^verbatim>\<open>image.complete\<close> (the parameter \<open>imgComplete\<close>,
  which the browser decides) and attach the handlers.
\<close>

definition request_image :: "url \<Rightarrow> bool \<Rightarrow> world \<Rightarrow> world" where
  "request_image u imgComplete w =
     (case ImageCache_get (imageCache w) u of
        (Some cachedImage, c) \<Rightarrow>
          emit ''load'' (changed (w\<lparr>imageCache := c, loaded := True,
                                      textureFill := Some cachedImage\<rparr>))
      | (None, c) \<Rightarrow>
          (let img = \<lparr>ident = nextIdent w, src = u\<rparr>
           in changed (w\<lparr>imageCache := c,
                          nextIdent := Suc (nextIdent w),
                          effects := effects w @ [FetchStarted u],
                          loaded := imgComplete,
                          inFlight := inFlight w @ [(img, u)]\<rparr>)))"

text \<open>\<^verbatim>\<open>TextItem.setTextureFill\<close> (TextItem.js lines 151-204).\<close>

definition setTextureFill :: "string option \<Rightarrow> bool \<Rightarrow> world \<Rightarrow> world" where
  "setTextureFill u imgComplete w =
     (let w1 = (if \<not> truthy u \<and> textureFill w \<noteq> None
                then changed (w\<lparr>loaded := True, textureFill := None\<rparr>) else w);
          w2 = w1\<lparr>textureFillUrl := u\<rparr>
      in case u of
           None \<Rightarrow> w2
         | Some s \<Rightarrow> if truthy u then request_image s imgComplete w2 else w2)"

text \<open>\<^verbatim>\<open>CompoundPath.setFillImage\<close> (lines 251-302 of the listing): no URL field is written.\<close>

definition setFillImage :: "string option \<Rightarrow> bool \<Rightarrow> world \<Rightarrow> world" where
  "setFillImage u imgComplete w =
     (let w1 = (if \<not> truthy u \<and> textureFill w \<noteq> None
                then changed (w\<lparr>loaded := True, textureFill := None\<rparr>) else w)
      in case u of
           None \<Rightarrow> w1
         | Some s \<Rightarrow> if truthy u then request_image s imgComplete w1 else w1)"

text \<open>
  The \<^verbatim>\<open>load\<close> handler attached to the image (lines 191-198): it binds the image it closed
  over, stores it in the cache under the URL it closed over and reports. \<open>now\<close> is the
  reading of \<^verbatim>\<open>Date.now()\<close> inside \<^verbatim>\<open>ImageCache.set\<close>. The \<^verbatim>\<open>error\<close> handler is \<^verbatim>\<open>emit\<close>.
\<close>

definition on_load :: "Image \<Rightarrow> url \<Rightarrow> nat \<Rightarrow> world \<Rightarrow> world" where
  "on_load img u now w =
     emit ''load'' (changed (w\<lparr>loaded := True, textureFill := Some img,
                                 imageCache := ImageCache_set (imageCache w) u img now\<rparr>))"

definition on_error :: "world \<Rightarrow> world" where
  "on_error w = emit ''error'' w"

text \<open>
  The browser completing the fetch of the image with identity \<open>i\<close>: the image leaves
  \<open>inFlight\<close> and its handler runs. Nothing happens for an identity that is not in flight.
\<close>

definition load_completes :: "nat \<Rightarrow> nat \<Rightarrow> world \<Rightarrow> world" where
  "load_completes i now w =
     (case find (\<lambda>(img, u). ident img = i) (inFlight w) of
        None \<Rightarrow> w
      | Some (img, u) \<Rightarrow>
          on_load img u now (w\<lparr>inFlight := filter (\<lambda>(img', u'). ident img' \<noteq> i) (inFlight w)\<rparr>))"

definition load_fails :: "nat \<Rightarrow> world \<Rightarrow> world" where
  "load_fails i w =
     (case find (\<lambda>(img, u). ident img = i) (inFlight w) of
        None \<Rightarrow> w
      | Some (img, u) \<Rightarrow>
          on_error (w\<lparr>inFlight := filter (\<lambda>(img', u'). ident img' \<noteq> i) (inFlight w)\<rparr>))"

text \<open>A freshly constructed item (the initialisers of both classes) and an empty cache.\<close>

definition new_item :: "bool \<Rightarrow> (string \<Rightarrow> bool) \<Rightarrow> world" where
  "new_item v r =
     \<lparr>textureFill = None, textureFillUrl = None, loaded = False, hasView = v, responds = r,
      imageCache = ImageCache_init, inFlight = [], nextIdent = 0, effects = []\<rparr>"


section \<open>Fitting the texture to the text or path\<close>

text \<open>
  JavaScript numbers are IEEE doubles. They are modelled as real numbers, and the rounding
  of every sum, difference, product and quotient to a double is a parameter \<open>fl\<close> of the
  model: the result of \<^verbatim>\<open>a / b\<close> is \<open>fl (a / b)\<close>. Comparisons, negation, \<^verbatim>\<open>Math.max\<close>,
  \<^verbatim>\<open>Math.ceil\<close> and \<^verbatim>\<open>Math.round\<close> are exact on doubles and need no rounding. General
  statements hold for every \<open>fl\<close>; a concrete run uses \<open>exact\<close>, no rounding at all, on
  inputs chosen so that the sizes and offsets it computes are doubles.

  \<^verbatim>\<open>NaN\<close> and the infinities are outside the model. In particular the model has no value
  for a division by zero (HOL gives 0 where JavaScript gives \<^verbatim>\<open>Infinity\<close> or \<^verbatim>\<open>NaN\<close>), so
  general statements assume that the image ratio, the only divisor that can be zero, is
  not.
\<close>

definition exact :: "real \<Rightarrow> real" where
  "exact v = v"

definition fadd :: "(real \<Rightarrow> real) \<Rightarrow> real \<Rightarrow> real \<Rightarrow> real" where
  "fadd fl a b = fl (a + b)"

definition fsub :: "(real \<Rightarrow> real) \<Rightarrow> real \<Rightarrow> real \<Rightarrow> real" where
  "fsub fl a b = fl (a - b)"

definition fmul :: "(real \<Rightarrow> real) \<Rightarrow> real \<Rightarrow> real \<Rightarrow> real" where
  "fmul fl a b = fl (a * b)"

definition fdiv :: "(real \<Rightarrow> real) \<Rightarrow> real \<Rightarrow> real \<Rightarrow> real" where
  "fdiv fl a b = fl (a / b)"

definition Math_ceil :: "real \<Rightarrow> real" where
  "Math_ceil v = of_int \<lceil>v\<rceil>"

definition Math_round :: "real \<Rightarrow> real" where
  "Math_round v = of_int \<lfloor>v + 1 / 2\<rfloor>"

text \<open>
  The settings object (\<^verbatim>\<open>_fillImageSettings\<close>, \<^verbatim>\<open>_textureOptions\<close>). A property read through
  \<^verbatim>\<open>hasOwnProperty\<close> is optional; a property read for its truth value is a boolean, false
  when it is missing.
\<close>

record settings =
  textWidth :: "real option"
  textHeight :: "real option"
  offsetLeft :: "real option"
  offsetTop :: "real option"
  syncRatio :: bool
  scaling :: "real option"
  scalingX :: "real option"
  scalingY :: "real option"
  leftPosition :: "real option"
  topPosition :: "real option"
  horizontalFlip :: bool
  verticalFlip :: bool
  rotation :: "real option"

text \<open>The four local variables of the fit.\<close>

record fit =
  leftImage :: real
  topImage :: real
  widthImage :: real
  heightImage :: real

text \<open>
  PointText.js lines 190-203: start from the width of the text, and switch to the height
  of the bounds when the image would be too short.
\<close>

definition PointText_cover :: "(real \<Rightarrow> real) \<Rightarrow> real \<Rightarrow> real \<Rightarrow> real \<Rightarrow> fit" where
  "PointText_cover fl textW boundsH imageRatio =
     (let f = \<lparr>leftImage = 0, topImage = 0, widthImage = textW,
               heightImage = fdiv fl textW imageRatio\<rparr>
      in if heightImage f < boundsH
         then f\<lparr>heightImage := boundsH, widthImage := fmul fl boundsH imageRatio\<rparr>
         else f)"

text \<open>
  CompoundPath \<^verbatim>\<open>_draw\<close>, lines 587-595 of the listing: the switch is taken when the bounds
  are taller than wide.
\<close>

definition CompoundPath_cover :: "(real \<Rightarrow> real) \<Rightarrow> real \<Rightarrow> real \<Rightarrow> real \<Rightarrow> fit" where
  "CompoundPath_cover fl boundsW boundsH imageRatio =
     (let f = \<lparr>leftImage = 0, topImage = 0, widthImage = boundsW,
               heightImage = fdiv fl boundsW imageRatio\<rparr>
      in if boundsH > boundsW
         then f\<lparr>heightImage := boundsH, widthImage := fmul fl boundsH imageRatio\<rparr>
         else f)"

text \<open>
  PointText.js lines 206-217: explicit extents. \<^verbatim>\<open>Math.ceil\<close> is applied to the setting, to
  the rounded quotient and to the rounded product.
\<close>

definition PointText_explicit_extents ::
    "(real \<Rightarrow> real) \<Rightarrow> settings \<Rightarrow> real \<Rightarrow> fit \<Rightarrow> fit" where
  "PointText_explicit_extents fl s imageRatio f =
     (let f1 = (case textWidth s of
                  Some tw \<Rightarrow> f\<lparr>widthImage := Math_ceil tw,
                               heightImage := Math_ceil (fdiv fl (Math_ceil tw) imageRatio)\<rparr>
                | None \<Rightarrow> f)
      in case (textWidth s, textHeight s) of
           (Some tw, Some th) \<Rightarrow>
             if heightImage f1 < th
             then f1\<lparr>heightImage := Math_ceil th,
                     widthImage := Math_ceil (fmul fl th imageRatio)\<rparr>
             else f1
         | _ \<Rightarrow> f1)"

text \<open>
  The same step in the copy of PointText that accompanies the example page (lines 869-880
  of the listing): no \<^verbatim>\<open>Math.ceil\<close>, and the second test compares the two extents.
\<close>

definition PointText_example_explicit_extents ::
    "(real \<Rightarrow> real) \<Rightarrow> settings \<Rightarrow> real \<Rightarrow> fit \<Rightarrow> fit" where
  "PointText_example_explicit_extents fl s imageRatio f =
     (let f1 = (case textWidth s of
                  Some tw \<Rightarrow> f\<lparr>widthImage := tw, heightImage := fdiv fl tw imageRatio\<rparr>
                | None \<Rightarrow> f)
      in case (textWidth s, textHeight s) of
           (Some tw, Some th) \<Rightarrow>
             if th > tw
             then f1\<lparr>heightImage := th, widthImage := fmul fl th imageRatio\<rparr>
             else f1
         | _ \<Rightarrow> f1)"

text \<open>PointText.js lines 219-224.\<close>

definition base_offsets :: "settings \<Rightarrow> fit \<Rightarrow> fit" where
  "base_offsets s f =
     (let f1 = (case offsetLeft s of Some v \<Rightarrow> f\<lparr>leftImage := - v\<rparr> | None \<Rightarrow> f)
      in case offsetTop s of Some v \<Rightarrow> f1\<lparr>topImage := - v\<rparr> | None \<Rightarrow> f1)"

text \<open>PointText.js lines 226-238 and, word for word, lines 598-610 of the listing.\<close>

definition scale_fit :: "(real \<Rightarrow> real) \<Rightarrow> settings \<Rightarrow> fit \<Rightarrow> fit" where
  "scale_fit fl s f =
     (if syncRatio s then
        (case scaling s of
           Some k \<Rightarrow> f\<lparr>widthImage := fmul fl (widthImage f) k,
                       heightImage := fmul fl (heightImage f) k\<rparr>
         | None \<Rightarrow> f)
      else
        (let f1 = (case scalingX s of
                     Some k \<Rightarrow> f\<lparr>widthImage := fmul fl (widthImage f) k\<rparr> | None \<Rightarrow> f)
         in case scalingY s of
              Some k \<Rightarrow> f1\<lparr>heightImage := fmul fl (heightImage f1) k\<rparr> | None \<Rightarrow> f1))"

text \<open>PointText.js lines 241-246 and lines 611-616 of the listing.\<close>

definition position_nudge :: "(real \<Rightarrow> real) \<Rightarrow> settings \<Rightarrow> fit \<Rightarrow> fit" where
  "position_nudge fl s f =
     (let f1 = (case leftPosition s of
                  Some v \<Rightarrow> f\<lparr>leftImage := fadd fl (leftImage f) v\<rparr> | None \<Rightarrow> f)
      in case topPosition s of
           Some v \<Rightarrow> f1\<lparr>topImage := fsub fl (topImage f1) v\<rparr> | None \<Rightarrow> f1)"

text \<open>
  The fit of the point text, lines 190-247: the settings are applied only when there is a
  settings object and the cover fit has positive width and height.
\<close>

definition PointText_fit ::
    "(real \<Rightarrow> real) \<Rightarrow> settings option \<Rightarrow> real \<Rightarrow> real \<Rightarrow> real \<Rightarrow> fit" where
  "PointText_fit fl so textW boundsH imageRatio =
     (let f = PointText_cover fl textW boundsH imageRatio
      in case so of
           None \<Rightarrow> f
         | Some s \<Rightarrow>
             if widthImage f > 0 \<and> heightImage f > 0
             then position_nudge fl s (scale_fit fl s (base_offsets s
                    (PointText_explicit_extents fl s imageRatio f)))
             else f)"

text \<open>The fit of the compound path, lines 587-617 of the listing.\<close>

definition CompoundPath_fit ::
    "(real \<Rightarrow> real) \<Rightarrow> settings option \<Rightarrow> real \<Rightarrow> real \<Rightarrow> real \<Rightarrow> fit" where
  "CompoundPath_fit fl so boundsW boundsH imageRatio =
     (let f = CompoundPath_cover fl boundsW boundsH imageRatio
      in case so of
           None \<Rightarrow> f
         | Some s \<Rightarrow>
             if widthImage f > 0 \<and> heightImage f > 0
             then position_nudge fl s (scale_fit fl s f)
             else f)"


section \<open>Drawing with a texture\<close>

text \<open>
  A draw is modelled by the list of calls it makes, in order, on the target context
  \<^verbatim>\<open>ctx\<close>, on the offscreen context \<^verbatim>\<open>newCtx\<close> and on \<^verbatim>\<open>CanvasProvider\<close>. Assignments to
  \<^verbatim>\<open>globalCompositeOperation\<close> are recorded; the assignments to \<^verbatim>\<open>shadowColor\<close>, \<^verbatim>\<open>font\<close> and
  \<^verbatim>\<open>textAlign\<close> are not. \<open>DrawTexture\<close> is \<^verbatim>\<open>drawImage\<close> of the texture bitmap with its
  position and size, \<open>DrawCanvas\<close> is \<^verbatim>\<open>ctx.drawImage(newCtx.canvas, x, y)\<close>,
  \<open>RotateDegrees c d\<close> is the call \<^verbatim>\<open>rotate(d * Math.PI / 180)\<close>, recorded with the angle \<open>d\<close> in
  degrees, and \<open>DebugAppend\<close> stands for the statements that show the offscreen canvas on
  the page.
\<close>

datatype target = Ctx | NewCtx

datatype canvas_call =
    GetContext real real
  | Release
  | DebugAppend
  | SetStyles target
  | BeginPath target
  | DrawChild target nat
  | Fill target string
  | Stroke target
  | FillText target string
  | StrokeText target string
  | Translate target real real
  | Scale target real real
  | RotateDegrees target real
  | Composite target string
  | DrawTexture target real real real real
  | DrawCanvas real real

record Bitmap =
  bitmapWidth :: real
  bitmapHeight :: real

record Rectangle =
  rect_x :: real
  rect_y :: real
  width :: real
  height :: real

record Style =
  hasFill :: bool
  hasStroke :: bool
  leading :: real
  justification :: string
  fillRule :: string

record Item =
  style :: Style
  fillImage :: "Bitmap option"
  fillImageSettings :: "settings option"

record TextMetrics =
  actualBoundingBoxLeft :: real
  metricsWidth :: real

text \<open>
  A point text with what its draw asks of its surroundings: \<open>actualTextWidth\<close> is the
  answer of \<^verbatim>\<open>getView().getActualTextWidth(...)\<close> and \<open>measureText\<close> that of
  \<^verbatim>\<open>ctx.measureText(line)\<close>. A compound path has \<open>children\<close> child paths and its \<^verbatim>\<open>bounds\<close>.
\<close>

record PointText = Item +
  content :: string
  lines :: "string list"
  actualTextWidth :: real
  measureText :: "string \<Rightarrow> TextMetrics"

record CompoundPath = Item +
  children :: nat
  bounds :: Rectangle

definition DEBUG :: bool where
  "DEBUG = False"

text \<open>\<^verbatim>\<open>this._fillImage.width / this._fillImage.height\<close>, in both draws.\<close>

definition imageRatio_of :: "(real \<Rightarrow> real) \<Rightarrow> Bitmap \<Rightarrow> real" where
  "imageRatio_of fl bitmap = fdiv fl (bitmapWidth bitmap) (bitmapHeight bitmap)"

text \<open>
  Lines 251-269 of PointText.js and 619-637 of the listing: the translation by the offsets
  always, the flips and the rotation only with a settings object and a positive size.
\<close>

definition texture_transform ::
    "(real \<Rightarrow> real) \<Rightarrow> settings option \<Rightarrow> fit \<Rightarrow> canvas_call list" where
  "texture_transform fl so f =
     Translate NewCtx (leftImage f) (topImage f) #
     (case so of
        None \<Rightarrow> []
      | Some s \<Rightarrow>
          if widthImage f > 0 \<and> heightImage f > 0 then
            (if horizontalFlip s
             then [Translate NewCtx (widthImage f) 0, Scale NewCtx (- 1) 1] else []) @
            (if verticalFlip s
             then [Translate NewCtx 0 (heightImage f), Scale NewCtx 1 (- 1)] else []) @
            (case rotation s of
               Some deg \<Rightarrow>
                 [Translate NewCtx (fdiv fl (widthImage f) 2) (fdiv fl (heightImage f) 2),
                  RotateDegrees NewCtx deg,
                  Translate NewCtx (fdiv fl (- widthImage f) 2) (fdiv fl (- heightImage f) 2)]
             | None \<Rightarrow> [])
          else [])"

text \<open>\<^verbatim>\<open>PointText._getBounds(null, {actualText: true})\<close>, PointText.js lines 309-328.\<close>

definition getBounds :: "(real \<Rightarrow> real) \<Rightarrow> 'a PointText_scheme \<Rightarrow> Rectangle" where
  "getBounds fl t =
     (let numLines = length (lines t);
          j = justification (style t);
          w = actualTextWidth t;
          x = (if j \<noteq> ''left''
               then fsub fl 0 (fdiv fl w (if j = ''center'' then 2 else 1)) else 0)
      in \<lparr>rect_x = x,
          rect_y = (if numLines \<noteq> 0 then fmul fl (- 0.75) (leading (style t)) else 0),
          width = w,
          height = fmul fl (real numLines) (leading (style t))\<rparr>)"

text \<open>
  One round of the loop over the lines, PointText.js lines 93-305. The \<^verbatim>\<open>continue\<close> of
  line 170 also skips the final \<^verbatim>\<open>ctx.translate(0, leading)\<close>.
\<close>

definition PointText_draw_line ::
    "(real \<Rightarrow> real) \<Rightarrow> 'a PointText_scheme \<Rightarrow> string \<Rightarrow> canvas_call list" where
  "PointText_draw_line fl t line =
     (case fillImage t of
        None \<Rightarrow>
          (if hasFill (style t) then [FillText Ctx line] else []) @
          (if hasStroke (style t) then [StrokeText Ctx line] else []) @
          [Translate Ctx 0 (leading (style t))]
      | Some bitmap \<Rightarrow>
          (let metrics = measureText t line;
               b = getBounds fl t;
               textW = width b;
               scaling = Math_ceil (max 5 (fdiv fl textW 50));
               extraSpaceWidth = fmul fl 10 scaling;
               canvasWidth = Math_round (fadd fl (fmul fl textW scaling) extraSpaceWidth);
               canvasHeight = Math_round (fmul fl (fmul fl (height b) scaling) 1.5)
           in if canvasWidth \<le> 0 \<or> canvasHeight \<le> 0 then []
              else
                (let imageRatio = imageRatio_of fl bitmap;
                     f = PointText_fit fl (fillImageSettings t) textW (height b) imageRatio;
                     centered = (justification (style t) = ''center'');
                     halfWidth = fdiv fl (metricsWidth metrics) 2;
                     boundingBoxLeft = (if centered then halfWidth else 0);
                     imageLeftOffset = (if centered then 0 else actualBoundingBoxLeft metrics)
                 in [GetContext canvasWidth canvasHeight,
                     SetStyles NewCtx,
                     Scale NewCtx scaling scaling,
                     Translate NewCtx 0 (height b)] @
                    (if hasFill (style t) then [FillText NewCtx line] else []) @
                    [Translate NewCtx (rect_x b) (rect_y b),
                     Composite NewCtx ''source-atop''] @
                    texture_transform fl (fillImageSettings t) f @
                    (if widthImage f > 0 \<and> heightImage f > 0 \<and> height b > 0 then
                       (if centered then [Translate NewCtx halfWidth 0] else []) @
                       [DrawTexture NewCtx (- imageLeftOffset) 0 (widthImage f) (heightImage f),
                        Translate Ctx (- boundingBoxLeft) (- height b),
                        Scale Ctx (fdiv fl 1 scaling) (fdiv fl 1 scaling),
                        DrawCanvas 0 0,
                        Scale Ctx scaling scaling,
                        Translate Ctx 0 (height b)] @
                       (if DEBUG then [DebugAppend, Release] else []) @
                       [Release]
                     else []) @
                    [Translate Ctx 0 (leading (style t))])))"

text \<open>\<^verbatim>\<open>PointText._draw\<close>, PointText.js lines 79-307.\<close>

definition PointText_draw :: "(real \<Rightarrow> real) \<Rightarrow> 'a PointText_scheme \<Rightarrow> canvas_call list" where
  "PointText_draw fl t =
     (if content t = [] then []
      else SetStyles Ctx # concat (map (PointText_draw_line fl t) (lines t)))"

text \<open>
  \<^verbatim>\<open>CompoundPath._draw\<close>, lines 503-651 of the listing; \<open>clip\<close> is \<^verbatim>\<open>param.clip\<close>. The first
  part builds the path on \<^verbatim>\<open>ctx\<close> and paints it flat when there is no texture.
\<close>

definition CompoundPath_draw_flat :: "'a CompoundPath_scheme \<Rightarrow> bool \<Rightarrow> canvas_call list" where
  "CompoundPath_draw_flat p clip =
     BeginPath Ctx # map (DrawChild Ctx) [0..<children p] @
     (if \<not> clip \<and> fillImage p = None then
        SetStyles Ctx #
        (if hasFill (style p) then [Fill Ctx (fillRule (style p))] else []) @
        (if hasStroke (style p) then [Stroke Ctx] else [])
      else [])"

text \<open>
  The second part paints through an offscreen canvas. Lines 527-536 give up when the first
  estimate of the canvas size rounds to nothing.
\<close>

definition CompoundPath_canvas_empty :: "(real \<Rightarrow> real) \<Rightarrow> 'a CompoundPath_scheme \<Rightarrow> bool" where
  "CompoundPath_canvas_empty fl p =
     (let b = bounds p;
          textW = width b;
          scaling = max 5 (fdiv fl textW 50);
          canvasWidth = Math_round (fmul fl textW scaling);
          canvasHeight = Math_round (fmul fl (fmul fl (height b) scaling) 1.5)
      in canvasWidth \<le> 0 \<or> canvasHeight \<le> 0)"

definition CompoundPath_draw_textured ::
    "(real \<Rightarrow> real) \<Rightarrow> 'a CompoundPath_scheme \<Rightarrow> canvas_call list" where
  "CompoundPath_draw_textured fl p =
     (case fillImage p of
        None \<Rightarrow> []
      | Some bitmap \<Rightarrow>
          (let b = bounds p;
               textW = width b
           in if CompoundPath_canvas_empty fl p then []
              else
                (let canvasWidth = fadd fl (width b) 100;
                     canvasHeight = fadd fl (height b) 100;
                     centerX = fadd fl (rect_x b) (fdiv fl (width b) 2);
                     centerY = fadd fl (rect_y b) (fdiv fl (height b) 2);
                     positionX = fsub fl (fdiv fl canvasWidth 2) centerX;
                     positionY = fsub fl (fdiv fl canvasHeight 2) centerY;
                     imageRatio = imageRatio_of fl bitmap;
                     imagePositionX = fadd fl (fdiv fl (- width b) 2) centerX;
                     imagePositionY = fadd fl (fdiv fl (- height b) 2) centerY;
                     f = CompoundPath_fit fl (fillImageSettings p) textW (height b) imageRatio
                 in [GetContext canvasWidth canvasHeight,
                     SetStyles NewCtx] @
                    (if DEBUG then [DebugAppend, Release] else []) @
                    [Translate NewCtx positionX positionY] @
                    map (DrawChild NewCtx) [0..<children p] @
                    (if hasFill (style p) then [Fill NewCtx (fillRule (style p))] else []) @
                    [Composite NewCtx ''source-in'',
                     Translate NewCtx imagePositionX imagePositionY] @
                    texture_transform fl (fillImageSettings p) f @
                    (if widthImage f > 0 \<and> heightImage f > 0 \<and> height b > 0
                     then [DrawTexture NewCtx 0 0 (widthImage f) (heightImage f)] else []) @
                    [Composite NewCtx ''source-over''] @
                    (if hasStroke (style p) then [Stroke NewCtx] else []) @
                    [DrawCanvas (- positionX) (- positionY)])))"

definition CompoundPath_draw ::
    "(real \<Rightarrow> real) \<Rightarrow> 'a CompoundPath_scheme \<Rightarrow> bool \<Rightarrow> canvas_call list" where
  "CompoundPath_draw fl p clip =
     (if children p = 0 then []
      else CompoundPath_draw_flat p clip @ CompoundPath_draw_textured fl p)"

text \<open>Tests on single calls, for statements about what a draw does or does not do.\<close>

fun is_GetContext :: "canvas_call \<Rightarrow> bool" where
  "is_GetContext (GetContext w h) = True"
| "is_GetContext _ = False"

fun is_DrawTexture :: "canvas_call \<Rightarrow> bool" where
  "is_DrawTexture (DrawTexture c x y w h) = True"
| "is_DrawTexture _ = False"

fun nonempty_surface :: "canvas_call \<Rightarrow> bool" where
  "nonempty_surface (GetContext w h) = (w > 0 \<and> h > 0)"
| "nonempty_surface _ = True"


section \<open>Notions used in the statements and proofs\<close>

text \<open>
  The invariant of the cache: the map has one entry per URL, every URL of the map occurs
  in \<^verbatim>\<open>_order\<close>, and \<^verbatim>\<open>_order\<close> is no longer than \<^verbatim>\<open>_maxSize\<close>.
\<close>

definition cache_inv :: "'img ImageCache \<Rightarrow> bool" where
  "cache_inv c = (distinct (map fst (cache c)) \<and> fst ` set (cache c) \<subseteq> set (order c)
      \<and> length (order c) \<le> maxSize)"

text \<open>A map holding, for each listed URL \<open>u\<close>, the image \<open>img u\<close> and the given timestamp.\<close>

definition filled :: "(url \<Rightarrow> 'img) \<Rightarrow> (url \<times> nat) list \<Rightarrow> 'img js_map" where
  "filled img xs = map (\<lambda>(u, n). (u, \<lparr>image = img u, timestamp = n\<rparr>)) xs"

text \<open>Every image in flight was created before the next one will be.\<close>

definition fresh_idents :: "world \<Rightarrow> bool" where
  "fresh_idents w = list_all (\<lambda>(img, u). ident img < nextIdent w) (inFlight w)"

text \<open>The settings object \<^verbatim>\<open>{}\<close>, and a text and a path to run the draws on.\<close>

definition no_settings :: settings where
  "no_settings =
     \<lparr>textWidth = None, textHeight = None, offsetLeft = None, offsetTop = None,
      syncRatio = False, scaling = None, scalingX = None, scalingY = None,
      leftPosition = None, topPosition = None, horizontalFlip = False, verticalFlip = False,
      rotation = None\<rparr>"

definition sample_style :: Style where
  "sample_style =
     \<lparr>hasFill = True, hasStroke = True, leading = 12, justification = ''left'',
      fillRule = ''nonzero''\<rparr>"

definition sample_text :: "settings option \<Rightarrow> PointText" where
  "sample_text so =
     \<lparr>style = sample_style,
      fillImage = Some \<lparr>bitmapWidth = 400, bitmapHeight = 100\<rparr>,
      fillImageSettings = so,
      content = ''Hi'', lines = [''Hi''], actualTextWidth = 100,
      measureText = (\<lambda>l. \<lparr>actualBoundingBoxLeft = 0, metricsWidth = 100\<rparr>)\<rparr>"

definition sample_path :: "settings option \<Rightarrow> CompoundPath" where
  "sample_path so =
     \<lparr>style = sample_style,
      fillImage = Some \<lparr>bitmapWidth = 400, bitmapHeight = 100\<rparr>,
      fillImageSettings = so,
      children = 1,
      bounds = \<lparr>rect_x = 0, rect_y = 0, width = 100, height = 50\<rparr>\<rparr>"

text \<open>
  What rounding to a double is known to do, as far as the proofs need it: it keeps the
  order, and it leaves 0 and 100 as they are.
\<close>

definition rounds :: "(real \<Rightarrow> real) \<Rightarrow> bool" where
  "rounds fl = (mono fl \<and> fl 0 = 0 \<and> fl 100 = 100)"

text \<open>
  The divisions of a draw are defined: the bitmap of the texture, when there is one, has a
  height other than 0 and an image ratio other than 0.
\<close>

definition ratio_defined :: "(real \<Rightarrow> real) \<Rightarrow> 'a Item_scheme \<Rightarrow> bool" where
  "ratio_defined fl i =
     (case fillImage i of
        None \<Rightarrow> True
      | Some bitmap \<Rightarrow> bitmapHeight bitmap \<noteq> 0 \<and> imageRatio_of fl bitmap \<noteq> 0)"





text \<open>
  A degenerate fit: a texture is set, and the fitted width, the fitted height or the height
  of the bounds is not positive (the negation of the tests of lines 271 and 639).
\<close>

definition PointText_degenerate :: "(real \<Rightarrow> real) \<Rightarrow> 'a PointText_scheme \<Rightarrow> bool" where
  "PointText_degenerate fl t =
     (case fillImage t of
        None \<Rightarrow> False
      | Some bitmap \<Rightarrow>
          (let b = getBounds fl t;
               f = PointText_fit fl (fillImageSettings t) (width b) (height b)
                     (imageRatio_of fl bitmap)
           in widthImage f \<le> 0 \<or> heightImage f \<le> 0 \<or> height b \<le> 0))"

definition CompoundPath_degenerate :: "(real \<Rightarrow> real) \<Rightarrow> 'a CompoundPath_scheme \<Rightarrow> bool" where
  "CompoundPath_degenerate fl p =
     (case fillImage p of
        None \<Rightarrow> False
      | Some bitmap \<Rightarrow>
          (let b = bounds p;
               f = CompoundPath_fit fl (fillImageSettings p) (width b) (height b)
                     (imageRatio_of fl bitmap)
           in widthImage f \<le> 0 \<or> heightImage f \<le> 0 \<or> height b \<le> 0))"

text \<open>
  What the second part of the draw of a compound path does when it skips the texture: it
  obtains the canvas, moves to its middle, rebuilds the path, fills it, switches to
  \<^verbatim>\<open>source-in\<close>, applies the transforms, switches back to \<^verbatim>\<open>source-over\<close>, strokes the path
  and copies the canvas to the target, undoing the move. The bitmap is only read for the
  transforms.
\<close>

definition painted_without_texture ::
    "(real \<Rightarrow> real) \<Rightarrow> 'a CompoundPath_scheme \<Rightarrow> Bitmap \<Rightarrow> canvas_call list" where
  "painted_without_texture fl p bitmap =
     (let b = bounds p;
          canvasWidth = fadd fl (width b) 100;
          canvasHeight = fadd fl (height b) 100;
          centerX = fadd fl (rect_x b) (fdiv fl (width b) 2);
          centerY = fadd fl (rect_y b) (fdiv fl (height b) 2);
          positionX = fsub fl (fdiv fl canvasWidth 2) centerX;
          positionY = fsub fl (fdiv fl canvasHeight 2) centerY;
          f = CompoundPath_fit fl (fillImageSettings p) (width b) (height b)
                (imageRatio_of fl bitmap)
      in [GetContext canvasWidth canvasHeight,
          SetStyles NewCtx,
          Translate NewCtx positionX positionY] @
         map (DrawChild NewCtx) [0..<children p] @
         (if hasFill (style p) then [Fill NewCtx (fillRule (style p))] else []) @
         [Composite NewCtx ''source-in'',
          Translate NewCtx (fadd fl (fdiv fl (- width b) 2) centerX)
            (fadd fl (fdiv fl (- height b) 2) centerY)] @
         texture_transform fl (fillImageSettings p) f @
         [Composite NewCtx ''source-over''] @
         (if hasStroke (style p) then [Stroke NewCtx] else []) @
         [DrawCanvas (- positionX) (- positionY)])"


section \<open>Properties of the cache\<close>

declare shift_oldest.simps [simp del]

lemma shift_oldest_below: "length (order c) < maxSize \<Longrightarrow> shift_oldest c = ([], c)"
  by (subst shift_oldest.simps) simp

lemma shift_oldest_full:
  "maxSize \<le> length (order c) \<Longrightarrow> order c = oldest # rest \<Longrightarrow>
   shift_oldest c =
     (let (evicted, c') = shift_oldest (c\<lparr>order := rest, cache := Map_delete (cache c) oldest\<rparr>)
      in (oldest # evicted, c'))"
  by (subst shift_oldest.simps) simp

lemma shift_oldest_length: "length (order (snd (shift_oldest c))) < maxSize"
proof (induction c rule: shift_oldest.induct)
  case (1 c)
  show ?case
  proof (cases "maxSize \<le> length (order c)")
    case False
    then show ?thesis by (simp add: shift_oldest_below)
  next
    case True
    then obtain oldest rest where o: "order c = oldest # rest"
      by (cases "order c") (auto simp: maxSize_def)
    from 1[OF True o] True o show ?thesis
      by (simp add: shift_oldest_full case_prod_beta)
  qed
qed

lemma shift_oldest_keys:
  "distinct (map fst (cache c)) \<Longrightarrow> fst ` set (cache c) \<subseteq> set (order c) \<Longrightarrow>
   distinct (map fst (cache (snd (shift_oldest c)))) \<and>
   fst ` set (cache (snd (shift_oldest c))) \<subseteq> set (order (snd (shift_oldest c)))"
proof (induction c rule: shift_oldest.induct)
  case (1 c)
  show ?case
  proof (cases "maxSize \<le> length (order c)")
    case False
    with 1 show ?thesis by (simp add: shift_oldest_below)
  next
    case True
    then obtain oldest rest where o: "order c = oldest # rest"
      by (cases "order c") (auto simp: maxSize_def)
    let ?c = "c\<lparr>order := rest, cache := Map_delete (cache c) oldest\<rparr>"
    have d: "distinct (map fst (cache ?c))"
      using 1(2) by (simp add: Map_delete_def distinct_delete)
    have k: "fst ` set (cache ?c) \<subseteq> set (order ?c)"
      using 1(2,3) o by (auto simp: Map_delete_def AList.delete_eq)
    from 1(1)[OF True o d k] True o show ?thesis
      by (simp add: shift_oldest_full case_prod_beta)
  qed
qed

lemma indexOf_ge: "- 1 \<le> indexOf xs x"
  by (induction xs) (auto simp: Let_def)

lemma indexOf_mem: "(indexOf xs x > - 1) = (x \<in> set xs)"
  by (induction xs) (auto simp: Let_def)

lemma splice1_indexOf: "x \<in> set xs \<Longrightarrow> splice1 xs (indexOf xs x) = remove1 x xs"
proof (induction xs)
  case Nil
  then show ?case by simp
next
  case (Cons y ys)
  show ?case
  proof (cases "y = x")
    case True
    then show ?thesis by (simp add: splice1_def)
  next
    case False
    with Cons.prems have m: "x \<in> set ys" by simp
    then have i: "indexOf ys x > - 1" by (simp add: indexOf_mem)
    then have n: "nat (indexOf ys x + 1) = Suc (nat (indexOf ys x))" by simp
    from Cons.IH[OF m] False i show ?thesis
      by (simp add: splice1_def Let_def n)
  qed
qed

lemma ImageCache_get_order:
  "Map_get (cache c) u \<noteq> None \<Longrightarrow> u \<in> set (order c) \<Longrightarrow>
   order (snd (ImageCache_get c u)) = remove1 u (order c) @ [u]"
  by (auto simp: ImageCache_get_def Let_def indexOf_mem splice1_indexOf)

lemma ImageCache_get_cache: "cache (snd (ImageCache_get c u)) = cache c"
  by (simp add: ImageCache_get_def Let_def split: option.splits)

lemma cache_inv_get: "cache_inv c \<Longrightarrow> cache_inv (snd (ImageCache_get c u))"
proof (cases "Map_get (cache c) u")
  case None
  assume "cache_inv c"
  with None show ?thesis by (simp add: ImageCache_get_def)
next
  case (Some e)
  assume inv: "cache_inv c"
  from Some have "u \<in> fst ` set (cache c)"
    by (auto simp: Map_get_def dest: map_of_SomeD intro: rev_image_eqI)
  with inv have m: "u \<in> set (order c)" by (auto simp: cache_inv_def)
  have o: "order (snd (ImageCache_get c u)) = remove1 u (order c) @ [u]"
    using Some m by (simp add: ImageCache_get_order)
  have s: "set (remove1 u (order c) @ [u]) = set (order c)"
  proof -
    have a: "set (remove1 u (order c)) \<subseteq> set (order c)" by (rule set_remove1_subset)
    have b: "x \<in> set (order c) \<Longrightarrow> x \<noteq> u \<Longrightarrow> x \<in> set (remove1 u (order c))" for x
      by (simp add: in_set_remove1)
    show ?thesis using a b m by fastforce
  qed
  have l: "length (remove1 u (order c) @ [u]) = length (order c)"
    using m by (simp add: length_remove1) (cases "order c"; simp)
  from inv show ?thesis
    unfolding cache_inv_def ImageCache_get_cache o s l .
qed

lemma cache_inv_set: "cache_inv c \<Longrightarrow> cache_inv (ImageCache_set c u img now)"
proof -
  assume inv: "cache_inv c"
  let ?c1 = "snd (shift_oldest c)"
  from inv have k: "distinct (map fst (cache ?c1)) \<and> fst ` set (cache ?c1) \<subseteq> set (order ?c1)"
    by (simp add: cache_inv_def shift_oldest_keys)
  have l: "length (order ?c1) < maxSize" by (rule shift_oldest_length)
  from k l show ?thesis
    by (auto simp: cache_inv_def ImageCache_set_def Let_def Map_set_def distinct_update dom_update)
qed

lemma cache_inv_init: "cache_inv ImageCache_init"
  by (simp add: cache_inv_def ImageCache_init_def)

lemma cache_inv_op: "cache_inv c \<Longrightarrow> cache_inv (apply_cache_op c x)"
  by (cases x) (simp_all add: cache_inv_get cache_inv_set)

lemma cache_inv_foldl: "cache_inv c \<Longrightarrow> cache_inv (foldl apply_cache_op c ops)"
  by (induction ops arbitrary: c) (simp_all add: cache_inv_op)

lemma cache_inv_size: "cache_inv c \<Longrightarrow> length (cache c) \<le> maxSize"
proof -
  assume inv: "cache_inv c"
  then have "length (cache c) = card (fst ` set (cache c))"
    using distinct_card[of "map fst (cache c)"] by (simp add: cache_inv_def)
  also have "\<dots> \<le> card (set (order c))"
    using inv by (simp add: cache_inv_def card_mono)
  also have "\<dots> \<le> length (order c)" by (rule card_length)
  finally show ?thesis using inv by (simp add: cache_inv_def)
qed

lemma cache_get_none: "\<not> ImageCache_has c u \<Longrightarrow> ImageCache_get c u = (None, c)"
  by (simp add: ImageCache_has_def Map_has_def ImageCache_get_def Map_get_def)

text \<open>
  Claim C10. For a URL that is not resident, \<^verbatim>\<open>get\<close> returns \<^verbatim>\<open>null\<close> (here \<open>None\<close>) and the
  cache after the call is the cache before it: the map and the recency order are unchanged.
\<close>

theorem get_miss: "\<not> ImageCache_has c u \<Longrightarrow> ImageCache_get c u = (None, c)"
  by (simp add: ImageCache_has_def Map_has_def ImageCache_get_def Map_get_def)

theorem get_miss_witness:
  "\<not> ImageCache_has (ImageCache_set ImageCache_init ''a'' (0::nat) 0) ''b''
   \<and> ImageCache_get (ImageCache_set ImageCache_init ''a'' (0::nat) 0) ''b''
       = (None, ImageCache_set ImageCache_init ''a'' 0 0)"
proof -
  have h: "\<not> ImageCache_has (ImageCache_set ImageCache_init ''a'' (0::nat) 0) ''b''"
    by (simp add: ImageCache_has_def Map_has_def ImageCache_set_def ImageCache_init_def
        shift_oldest_below maxSize_def Map_set_def)
  show ?thesis using h get_miss[OF h] by simp
qed

text \<open>
  Claim C4. After every finite sequence of \<^verbatim>\<open>get\<close>, \<^verbatim>\<open>set\<close> and \<^verbatim>\<open>has\<close> calls on the empty
  cache, the map holds at most one entry per URL and at most \<^verbatim>\<open>_maxSize\<close> = 10 entries.
\<close>

theorem cache_bounded:
  "distinct (resident (run_cache_ops ops))
   \<and> length (resident (run_cache_ops ops)) \<le> 10
   \<and> length (order (run_cache_ops ops)) \<le> 10"
proof -
  have "cache_inv (run_cache_ops ops)"
    unfolding run_cache_ops_def by (rule cache_inv_foldl[OF cache_inv_init])
  then show ?thesis
    using cache_inv_size[of "run_cache_ops ops"]
    by (simp add: cache_inv_def resident_def maxSize_def)
qed

lemma shift_oldest_eval:
  "shift_oldest \<lparr>cache = m, order = os\<rparr> =
     (if length os \<ge> maxSize then
        (case os of
           [] \<Rightarrow> ([], \<lparr>cache = m, order = os\<rparr>)
         | oldest # rest \<Rightarrow>
             (let (evicted, c') = shift_oldest \<lparr>cache = Map_delete m oldest, order = rest\<rparr>
              in (oldest # evicted, c')))
      else ([], \<lparr>cache = m, order = os\<rparr>))"
  by (subst shift_oldest.simps) (simp split: list.splits)

text \<open>
  Claim C3. From the empty cache, inserting ten distinct URLs \<open>u0\<close> to \<open>u9\<close> evicts nothing
  and leaves all ten resident; \<^verbatim>\<open>get(u0)\<close> then returns its image and refreshes it; inserting
  nine further distinct URLs \<open>u10\<close> to \<open>u18\<close> evicts exactly one URL per insertion, \<open>u1\<close> to
  \<open>u9\<close> in that order, and leaves \<open>u0\<close> and \<open>u10\<close> to \<open>u18\<close> resident.
\<close>

theorem cache_eviction_scenario:
  assumes d: "distinct [u0, u1, u2, u3, u4, u5, u6, u7, u8, u9,
                        u10, u11, u12, u13, u14, u15, u16, u17, u18]"
  shows "(let (ev1, c1) = insert_all img t0 ImageCache_init [u0, u1, u2, u3, u4, u5, u6, u7, u8, u9];
              (r, c2) = ImageCache_get c1 u0;
              (ev2, c3) = insert_all img t1 c2 [u10, u11, u12, u13, u14, u15, u16, u17, u18]
          in ev1 = [[], [], [], [], [], [], [], [], [], []]
           \<and> resident c1 = [u0, u1, u2, u3, u4, u5, u6, u7, u8, u9]
           \<and> r = Some (img u0)
           \<and> ev2 = [[u1], [u2], [u3], [u4], [u5], [u6], [u7], [u8], [u9]]
           \<and> resident c3 = [u0, u10, u11, u12, u13, u14, u15, u16, u17, u18]
           \<and> order c3 = [u0, u10, u11, u12, u13, u14, u15, u16, u17, u18])"
proof -
  note d' = distinct_rev[THEN iffD2, OF d]
  let ?m1 = "filled img [(u0, t0), (u1, t0 + 1), (u2, t0 + 2), (u3, t0 + 3), (u4, t0 + 4), (u5, t0 + 5),
      (u6, t0 + 6), (u7, t0 + 7), (u8, t0 + 8), (u9, t0 + 9)]"
  let ?m3 = "filled img [(u0, t0), (u10, t1), (u11, t1 + 1), (u12, t1 + 2), (u13, t1 + 3), (u14, t1 + 4),
      (u15, t1 + 5), (u16, t1 + 6), (u17, t1 + 7), (u18, t1 + 8)]"
  have 1: "insert_all img t0 ImageCache_init [u0, u1, u2, u3, u4, u5, u6, u7, u8, u9] =
      ([[], [], [], [], [], [], [], [], [], []],
       \<lparr>cache = ?m1, order = [u0, u1, u2, u3, u4, u5, u6, u7, u8, u9]\<rparr>)"
    using d d'
    by (simp add: ImageCache_init_def ImageCache_set_def evicted_by_set_def shift_oldest_eval
        maxSize_def Map_set_def filled_def)
  have 2: "ImageCache_get \<lparr>cache = ?m1, order = [u0, u1, u2, u3, u4, u5, u6, u7, u8, u9]\<rparr> u0 =
      (Some (img u0), \<lparr>cache = ?m1, order = [u1, u2, u3, u4, u5, u6, u7, u8, u9, u0]\<rparr>)"
    using d d' by (simp add: ImageCache_get_def Map_get_def splice1_def filled_def)
  have 3: "insert_all img t1 \<lparr>cache = ?m1, order = [u1, u2, u3, u4, u5, u6, u7, u8, u9, u0]\<rparr>
        [u10, u11, u12, u13, u14, u15, u16, u17, u18] =
      ([[u1], [u2], [u3], [u4], [u5], [u6], [u7], [u8], [u9]],
       \<lparr>cache = ?m3, order = [u0, u10, u11, u12, u13, u14, u15, u16, u17, u18]\<rparr>)"
    using d d'
    by (simp add: ImageCache_set_def evicted_by_set_def shift_oldest_eval maxSize_def
        Map_set_def Map_delete_def AList.delete_eq filled_def)
  show ?thesis
    unfolding 1 2 3 Let_def case_prod_conv
    by (simp add: resident_def filled_def)
qed

theorem cache_eviction_scenario_witness:
  "(let (ev1, c1) = insert_all (\<lambda>u. u) 0 ImageCache_init
                      [''u0'', ''u1'', ''u2'', ''u3'', ''u4'', ''u5'', ''u6'', ''u7'', ''u8'', ''u9''];
        (r, c2) = ImageCache_get c1 ''u0'';
        (ev2, c3) = insert_all (\<lambda>u. u) 10 c2
                      [''u10'', ''u11'', ''u12'', ''u13'', ''u14'', ''u15'', ''u16'', ''u17'', ''u18'']
    in ev1 = [[], [], [], [], [], [], [], [], [], []]
     \<and> resident c1 = [''u0'', ''u1'', ''u2'', ''u3'', ''u4'', ''u5'', ''u6'', ''u7'', ''u8'', ''u9'']
     \<and> r = Some ''u0''
     \<and> ev2 = [[''u1''], [''u2''], [''u3''], [''u4''], [''u5''], [''u6''], [''u7''], [''u8''], [''u9'']]
     \<and> resident c3 = [''u0'', ''u10'', ''u11'', ''u12'', ''u13'', ''u14'', ''u15'', ''u16'', ''u17'', ''u18'']
     \<and> order c3 = [''u0'', ''u10'', ''u11'', ''u12'', ''u13'', ''u14'', ''u15'', ''u16'', ''u17'', ''u18''])"
proof -
  have d: "distinct [''u0'', ''u1'', ''u2'', ''u3'', ''u4'', ''u5'', ''u6'', ''u7'', ''u8'', ''u9'',
      ''u10'', ''u11'', ''u12'', ''u13'', ''u14'', ''u15'', ''u16'', ''u17'', ''u18'']"
    by simp
  show ?thesis
    by (rule cache_eviction_scenario[OF d])
qed


section \<open>Properties of texture loading\<close>

lemma find_fresh:
  "list_all (\<lambda>(img, u). ident img < n) xs \<Longrightarrow> n \<le> i \<Longrightarrow>
   find (\<lambda>(img, u). ident img = i) (xs @ ys) = find (\<lambda>(img, u). ident img = i) ys"
  by (induction xs) auto

lemma filter_fresh:
  "list_all (\<lambda>(img, u). ident img < n) xs \<Longrightarrow> n \<le> i \<Longrightarrow>
   filter (\<lambda>(img, u). ident img \<noteq> i) xs = xs"
  by (induction xs) auto

lemma request_miss:
  "\<not> ImageCache_has (imageCache w) a \<Longrightarrow>
   request_image a k w =
     w\<lparr>nextIdent := Suc (nextIdent w),
       effects := effects w @ [FetchStarted a, StyleChanged],
       loaded := k,
       inFlight := inFlight w @ [(\<lparr>ident = nextIdent w, src = a\<rparr>, a)]\<rparr>"
  by (simp add: request_image_def cache_get_none changed_def)

lemma setTextureFill_miss:
  "a \<noteq> [] \<Longrightarrow> \<not> ImageCache_has (imageCache w) a \<Longrightarrow>
   setTextureFill (Some a) k w =
     w\<lparr>textureFillUrl := Some a,
       nextIdent := Suc (nextIdent w),
       effects := effects w @ [FetchStarted a, StyleChanged],
       loaded := k,
       inFlight := inFlight w @ [(\<lparr>ident = nextIdent w, src = a\<rparr>, a)]\<rparr>"
  by (simp add: setTextureFill_def truthy_def request_miss)

lemma setFillImage_miss:
  "a \<noteq> [] \<Longrightarrow> \<not> ImageCache_has (imageCache w) a \<Longrightarrow>
   setFillImage (Some a) k w =
     w\<lparr>nextIdent := Suc (nextIdent w),
       effects := effects w @ [FetchStarted a, StyleChanged],
       loaded := k,
       inFlight := inFlight w @ [(\<lparr>ident = nextIdent w, src = a\<rparr>, a)]\<rparr>"
  by (simp add: setFillImage_def truthy_def request_miss)

lemma textureFill_on_load: "textureFill (on_load img u now w) = Some img"
  by (simp add: on_load_def emit_def changed_def)

lemma inFlight_on_load: "inFlight (on_load img u now w) = inFlight w"
  by (simp add: on_load_def emit_def changed_def)

lemma nextIdent_on_load: "nextIdent (on_load img u now w) = nextIdent w"
  by (simp add: on_load_def emit_def changed_def)

lemma textureFillUrl_on_load: "textureFillUrl (on_load img u now w) = textureFillUrl w"
  by (simp add: on_load_def emit_def changed_def)

lemma two_in_flight:
  assumes f: "list_all (\<lambda>(img, u). ident img < n) xs"
    and i: "inFlight w = xs @ [(\<lparr>ident = n, src = a\<rparr>, a), (\<lparr>ident = Suc n, src = b\<rparr>, b)]"
  shows "textureFill (load_completes n t w) = Some \<lparr>ident = n, src = a\<rparr>"
    and "inFlight (load_completes n t w) = xs @ [(\<lparr>ident = Suc n, src = b\<rparr>, b)]"
    and "textureFill (load_completes (Suc n) t w) = Some \<lparr>ident = Suc n, src = b\<rparr>"
    and "inFlight (load_completes (Suc n) t w) = xs @ [(\<lparr>ident = n, src = a\<rparr>, a)]"
  using f
  by (simp_all add: load_completes_def i find_fresh filter_fresh textureFill_on_load inFlight_on_load)

lemma one_in_flight:
  assumes f: "list_all (\<lambda>(img, u). ident img < n) xs" and m: "n \<le> m"
    and i: "inFlight w = xs @ [(\<lparr>ident = m, src = a\<rparr>, a)]"
  shows "textureFill (load_completes m t w) = Some \<lparr>ident = m, src = a\<rparr>"
  using f m
  by (simp add: load_completes_def i find_fresh filter_fresh textureFill_on_load)

text \<open>
  Claim C5, as the code has it. A call of either setter with a falsy URL starts no fetch and
  touches neither the cache nor the images in flight. When a texture is bound, the call
  unbinds it, sets \<^verbatim>\<open>_loaded\<close> and reports one style change; when none is bound, it changes
  nothing (the text item records the URL in both cases).
\<close>

theorem falsy_url_clears_bound:
  assumes "\<not> truthy u"
  shows "setTextureFill u k w =
           (if textureFill w \<noteq> None
            then w\<lparr>loaded := True, textureFill := None,
                   effects := effects w @ [StyleChanged], textureFillUrl := u\<rparr>
            else w\<lparr>textureFillUrl := u\<rparr>)
       \<and> setFillImage u k w =
           (if textureFill w \<noteq> None
            then w\<lparr>loaded := True, textureFill := None, effects := effects w @ [StyleChanged]\<rparr>
            else w)"
  using assms
  by (cases u) (simp_all add: setTextureFill_def setFillImage_def changed_def)

theorem falsy_url_clears_bound_witness:
  "(let w = (new_item True (\<lambda>t. True))\<lparr>textureFill := Some \<lparr>ident = 0, src = ''A''\<rparr>\<rparr>
    in \<not> truthy (Some [])
     \<and> setTextureFill (Some []) False w =
         w\<lparr>loaded := True, textureFill := None, effects := [StyleChanged],
           textureFillUrl := Some []\<rparr>
     \<and> setFillImage (Some []) False w =
         w\<lparr>loaded := True, textureFill := None, effects := [StyleChanged]\<rparr>)"
proof -
  have h: "\<not> truthy (Some [])" by (simp add: truthy_def)
  show ?thesis
    using h falsy_url_clears_bound[OF h, of False
        "(new_item True (\<lambda>t. True))\<lparr>textureFill := Some \<lparr>ident = 0, src = ''A''\<rparr>\<rparr>"]
    by (simp add: Let_def new_item_def)
qed

text \<open>
  On a freshly constructed item, which has no texture bound, the call with \<^verbatim>\<open>null\<close> leaves
  \<^verbatim>\<open>_loaded\<close> false and reports no style change.
\<close>

theorem falsy_url_unbound_counterexample:
  "(let w = new_item True (\<lambda>t. True)
    in loaded w = False
     \<and> loaded (setTextureFill None False w) = False
     \<and> effects (setTextureFill None False w) = []
     \<and> loaded (setFillImage None False w) = False
     \<and> effects (setFillImage None False w) = [])"
  by (simp add: new_item_def setTextureFill_def setFillImage_def truthy_def)

text \<open>
  Claim C2, as the code has it. Let a shape request URL \<open>a\<close> and then URL \<open>b\<close>, neither in
  the cache, while the first fetch is still in flight. Neither request binds anything. When
  the fetch of \<open>a\<close> completes, its image is bound, although the shape's URL is \<open>b\<close> by then:
  the handler does not compare URLs. The image bound in the end is that of the fetch which
  completed last.
\<close>

theorem stale_completion_binds:
  assumes a: "a \<noteq> []" and b: "b \<noteq> []"
    and ma: "\<not> ImageCache_has (imageCache w) a" and mb: "\<not> ImageCache_has (imageCache w) b"
    and f: "fresh_idents w"
  shows "(let n = nextIdent w;
              imgA = \<lparr>ident = n, src = a\<rparr>;
              imgB = \<lparr>ident = Suc n, src = b\<rparr>;
              wT = setTextureFill (Some b) kb (setTextureFill (Some a) ka w);
              wP = setFillImage (Some b) kb (setFillImage (Some a) ka w)
          in textureFill wT = textureFill w \<and> textureFillUrl wT = Some b
           \<and> textureFill (load_completes n t wT) = Some imgA
           \<and> textureFillUrl (load_completes n t wT) = Some b
           \<and> textureFill (load_completes (Suc n) t' (load_completes n t wT)) = Some imgB
           \<and> textureFill (load_completes n t' (load_completes (Suc n) t wT)) = Some imgA
           \<and> textureFill wP = textureFill w
           \<and> textureFill (load_completes n t wP) = Some imgA
           \<and> textureFill (load_completes (Suc n) t' (load_completes n t wP)) = Some imgB
           \<and> textureFill (load_completes n t' (load_completes (Suc n) t wP)) = Some imgA)"
proof -
  let ?n = "nextIdent w"
  let ?wa = "setTextureFill (Some a) ka w"
  let ?wT = "setTextureFill (Some b) kb ?wa"
  let ?pa = "setFillImage (Some a) ka w"
  let ?wP = "setFillImage (Some b) kb ?pa"
  from f have fr: "list_all (\<lambda>(img, u). ident img < ?n) (inFlight w)"
    by (simp add: fresh_idents_def)
  have wa: "?wa = w\<lparr>textureFillUrl := Some a, nextIdent := Suc ?n,
       effects := effects w @ [FetchStarted a, StyleChanged], loaded := ka,
       inFlight := inFlight w @ [(\<lparr>ident = ?n, src = a\<rparr>, a)]\<rparr>"
    using a ma by (rule setTextureFill_miss)
  have mb': "\<not> ImageCache_has (imageCache ?wa) b" using mb by (simp add: wa)
  have wT: "?wT = ?wa\<lparr>textureFillUrl := Some b, nextIdent := Suc (nextIdent ?wa),
       effects := effects ?wa @ [FetchStarted b, StyleChanged], loaded := kb,
       inFlight := inFlight ?wa @ [(\<lparr>ident = nextIdent ?wa, src = b\<rparr>, b)]\<rparr>"
    using b mb' by (rule setTextureFill_miss)
  have iT: "inFlight ?wT = inFlight w @ [(\<lparr>ident = ?n, src = a\<rparr>, a), (\<lparr>ident = Suc ?n, src = b\<rparr>, b)]"
    by (simp add: wT) (simp add: wa)
  have fT: "textureFill ?wT = textureFill w" by (simp add: wT) (simp add: wa)
  have uT: "textureFillUrl ?wT = Some b" by (simp add: wT)
  have pa: "?pa = w\<lparr>nextIdent := Suc ?n,
       effects := effects w @ [FetchStarted a, StyleChanged], loaded := ka,
       inFlight := inFlight w @ [(\<lparr>ident = ?n, src = a\<rparr>, a)]\<rparr>"
    using a ma by (rule setFillImage_miss)
  have mp: "\<not> ImageCache_has (imageCache ?pa) b" using mb by (simp add: pa)
  have wP: "?wP = ?pa\<lparr>nextIdent := Suc (nextIdent ?pa),
       effects := effects ?pa @ [FetchStarted b, StyleChanged], loaded := kb,
       inFlight := inFlight ?pa @ [(\<lparr>ident = nextIdent ?pa, src = b\<rparr>, b)]\<rparr>"
    using b mp by (rule setFillImage_miss)
  have iP: "inFlight ?wP = inFlight w @ [(\<lparr>ident = ?n, src = a\<rparr>, a), (\<lparr>ident = Suc ?n, src = b\<rparr>, b)]"
    by (simp add: wP) (simp add: pa)
  have fP: "textureFill ?wP = textureFill w" by (simp add: wP) (simp add: pa)
  note T = two_in_flight[OF fr iT]
  note P = two_in_flight[OF fr iP]
  have uA: "textureFillUrl (load_completes ?n t ?wT) = Some b"
    using fr by (simp add: load_completes_def iT find_fresh textureFillUrl_on_load uT)
  have T5: "textureFill (load_completes (Suc ?n) t' (load_completes ?n t ?wT)) = Some \<lparr>ident = Suc ?n, src = b\<rparr>"
    by (rule one_in_flight[OF fr _ T(2)]) simp
  have T6: "textureFill (load_completes ?n t' (load_completes (Suc ?n) t ?wT)) = Some \<lparr>ident = ?n, src = a\<rparr>"
    by (rule one_in_flight[OF fr _ T(4)]) simp
  have P5: "textureFill (load_completes (Suc ?n) t' (load_completes ?n t ?wP)) = Some \<lparr>ident = Suc ?n, src = b\<rparr>"
    by (rule one_in_flight[OF fr _ P(2)]) simp
  have P6: "textureFill (load_completes ?n t' (load_completes (Suc ?n) t ?wP)) = Some \<lparr>ident = ?n, src = a\<rparr>"
    by (rule one_in_flight[OF fr _ P(4)]) simp
  show ?thesis
    unfolding Let_def
    using fT uT T(1) uA T5 T6 fP P(1) P5 P6 by blast
qed

theorem stale_completion_binds_witness:
  "(let w = new_item True (\<lambda>t. True);
        wT = setTextureFill (Some ''B'') False (setTextureFill (Some ''A'') False w);
        wP = setFillImage (Some ''B'') False (setFillImage (Some ''A'') False w)
    in textureFill wT = None \<and> textureFillUrl wT = Some ''B''
     \<and> textureFill (load_completes 0 7 wT) = Some \<lparr>ident = 0, src = ''A''\<rparr>
     \<and> textureFillUrl (load_completes 0 7 wT) = Some ''B''
     \<and> textureFill (load_completes 1 8 (load_completes 0 7 wT)) = Some \<lparr>ident = 1, src = ''B''\<rparr>
     \<and> textureFill (load_completes 0 8 (load_completes 1 7 wT)) = Some \<lparr>ident = 0, src = ''A''\<rparr>
     \<and> textureFill wP = None
     \<and> textureFill (load_completes 0 7 wP) = Some \<lparr>ident = 0, src = ''A''\<rparr>
     \<and> textureFill (load_completes 1 8 (load_completes 0 7 wP)) = Some \<lparr>ident = 1, src = ''B''\<rparr>
     \<and> textureFill (load_completes 0 8 (load_completes 1 7 wP)) = Some \<lparr>ident = 0, src = ''A''\<rparr>)"
proof -
  let ?w = "new_item True (\<lambda>t. True)"
  have a: "''A'' \<noteq> []" and b: "''B'' \<noteq> []" by simp_all
  have ma: "\<not> ImageCache_has (imageCache ?w) ''A''"
    and mb: "\<not> ImageCache_has (imageCache ?w) ''B''"
    by (simp_all add: new_item_def ImageCache_init_def ImageCache_has_def Map_has_def)
  have f: "fresh_idents ?w" by (simp add: fresh_idents_def new_item_def)
  have n: "nextIdent ?w = 0" and t: "textureFill ?w = None" by (simp_all add: new_item_def)
  show ?thesis
    using stale_completion_binds[OF a b ma mb f, of False False 7 8]
    unfolding Let_def n t by simp
qed

text \<open>
  The run that contradicts the claim as stated: after requests for A and B, the completion
  of A binds the image of A while B is still in flight.
\<close>

theorem superseded_request_counterexample:
  "(let w = new_item True (\<lambda>t. True);
        wT = load_completes 0 7 (setTextureFill (Some ''B'') False (setTextureFill (Some ''A'') False w));
        wP = load_completes 0 7 (setFillImage (Some ''B'') False (setFillImage (Some ''A'') False w))
    in textureFillUrl wT = Some ''B''
     \<and> inFlight wT = [(\<lparr>ident = 1, src = ''B''\<rparr>, ''B'')]
     \<and> textureFill wT = Some \<lparr>ident = 0, src = ''A''\<rparr>
     \<and> inFlight wP = [(\<lparr>ident = 1, src = ''B''\<rparr>, ''B'')]
     \<and> textureFill wP = Some \<lparr>ident = 0, src = ''A''\<rparr>)"
  by (simp add: new_item_def setTextureFill_def setFillImage_def truthy_def request_image_def
      ImageCache_init_def ImageCache_get_def Map_get_def changed_def load_completes_def
      on_load_def emit_def)

text \<open>
  The hypothesis on the images in flight excludes no state that can be reached: it holds
  of a new item, and every setter call and every completion keeps it.
\<close>

lemma fresh_idents_new_item: "fresh_idents (new_item v r)"
  by (simp add: fresh_idents_def new_item_def)

lemma fresh_idents_request:
  "fresh_idents w \<Longrightarrow> fresh_idents (request_image u k w)"
  by (auto simp: fresh_idents_def request_image_def changed_def emit_def list_all_iff
      split: prod.splits option.splits)

lemma fresh_idents_setters:
  assumes f: "fresh_idents w"
  shows "fresh_idents (setTextureFill a k w)" and "fresh_idents (setFillImage a k w)"
proof -
  let ?w1 = "if \<not> truthy a \<and> textureFill w \<noteq> None
             then changed (w\<lparr>loaded := True, textureFill := None\<rparr>) else w"
  have 1: "fresh_idents ?w1" using f by (simp add: fresh_idents_def changed_def)
  have 2: "fresh_idents (?w1\<lparr>textureFillUrl := a\<rparr>)"
    using f by (simp add: fresh_idents_def changed_def)
  show "fresh_idents (setTextureFill a k w)"
  proof (cases a)
    case None
    with 2 show ?thesis by (simp add: setTextureFill_def)
  next
    case (Some u)
    with 2 fresh_idents_request[OF 2, of u k] show ?thesis
      by (auto simp: setTextureFill_def Let_def split: if_splits)
  qed
  show "fresh_idents (setFillImage a k w)"
  proof (cases a)
    case None
    with 1 show ?thesis by (simp add: setFillImage_def)
  next
    case (Some u)
    with 1 fresh_idents_request[OF 1, of u k] show ?thesis
      by (auto simp: setFillImage_def Let_def split: if_splits)
  qed
qed

lemma fresh_idents_load_completes:
  "fresh_idents w \<Longrightarrow> fresh_idents (load_completes i now w)"
  by (auto simp: fresh_idents_def load_completes_def on_load_def changed_def emit_def
      list_all_iff split: option.splits)


section \<open>Properties of the fit\<close>

lemmas rounded_ops = fadd_def fsub_def fmul_def fdiv_def

text \<open>
  The point text covers its box whatever the rounding: when the width and the height of
  the box are doubles and the image ratio is positive, the cover fit is at least as wide
  and as high as the box.
\<close>

lemma PointText_cover_covers:
  assumes m: "mono fl" and W: "fl W = W" and H: "fl H = H" and r: "0 < r"
  shows "W \<le> widthImage (PointText_cover fl W H r) \<and> H \<le> heightImage (PointText_cover fl W H r)"
proof (cases "fl (W / r) < H")
  case True
  have "W / r < H"
  proof (rule ccontr)
    assume "\<not> W / r < H"
    then have "fl H \<le> fl (W / r)" using m by (simp add: monoD)
    with H True show False by simp
  qed
  with r have "W \<le> H * r" by (simp add: pos_divide_less_eq)
  then have "fl W \<le> fl (H * r)" using m by (simp add: monoD)
  with W True show ?thesis by (simp add: PointText_cover_def rounded_ops)
next
  case False
  then show ?thesis by (simp add: PointText_cover_def rounded_ops)
qed

text \<open>
  So does the whole fit, without explicit extents and with every scale factor missing or 1,
  with or without a settings object (stated without rounding).
\<close>

lemma PointText_fit_covers:
  assumes "0 < W" "0 < H" "0 < r"
    and "textWidth s = None"
    and "syncRatio s \<longrightarrow> scaling s = None \<or> scaling s = Some 1"
    and "\<not> syncRatio s \<longrightarrow>
           (scalingX s = None \<or> scalingX s = Some 1) \<and> (scalingY s = None \<or> scalingY s = Some 1)"
  shows "W \<le> widthImage (PointText_fit exact (Some s) W H r)
       \<and> H \<le> heightImage (PointText_fit exact (Some s) W H r)
       \<and> W \<le> widthImage (PointText_fit exact None W H r)
       \<and> H \<le> heightImage (PointText_fit exact None W H r)"
proof -
  have c: "W \<le> widthImage (PointText_cover exact W H r) \<and> H \<le> heightImage (PointText_cover exact W H r)"
    by (rule PointText_cover_covers) (simp_all add: exact_def mono_def assms(3))
  with assms(1,2) have p: "0 < widthImage (PointText_cover exact W H r)"
    "0 < heightImage (PointText_cover exact W H r)" by linarith+
  have e: "PointText_explicit_extents exact s r f = f" for f
    using assms(4) by (simp add: PointText_explicit_extents_def)
  have k: "scale_fit exact s f = f" for f
    using assms(5,6) by (auto simp: scale_fit_def rounded_ops exact_def Let_def split: option.splits)
  have w: "widthImage (position_nudge exact s (base_offsets s f)) = widthImage f"
    "heightImage (position_nudge exact s (base_offsets s f)) = heightImage f" for f
    by (simp_all add: position_nudge_def base_offsets_def Let_def split: option.splits)
  show ?thesis
    using p c by (simp add: PointText_fit_def Let_def e k w)
qed

text \<open>
  Claim C1: for a positive box and image ratio, without explicit extents and with scaling 1,
  the fitted texture is at least as wide and as high as the box, in the point text and in
  the compound path. The point text does so, as shown above. In the compound path the
  switch to the height of the bounds depends on the bounds being taller than wide, not on
  the image being too short: for a box of 100 by 50 and an image ratio of 4 the texture is
  fitted to 100 by 25 and drawn so, half the height of the box, where the point text fits
  it to 200 by 50; for a box of 50 by 100 and an image ratio of 1/4 it is fitted to 25 by
  100, half the width of the box.
\<close>

theorem CompoundPath_cover_letterboxes:
  "CompoundPath_fit exact None 100 50 4 = \<lparr>leftImage = 0, topImage = 0, widthImage = 100, heightImage = 25\<rparr>
   \<and> PointText_fit exact None 100 50 4 = \<lparr>leftImage = 0, topImage = 0, widthImage = 200, heightImage = 50\<rparr>
   \<and> CompoundPath_fit exact None 50 100 (1 / 4) = \<lparr>leftImage = 0, topImage = 0, widthImage = 25, heightImage = 100\<rparr>
   \<and> CompoundPath_draw exact (sample_path None) False =
       [BeginPath Ctx, DrawChild Ctx 0, GetContext 200 150, SetStyles NewCtx,
        Translate NewCtx 50 50, DrawChild NewCtx 0, Fill NewCtx ''nonzero'',
        Composite NewCtx ''source-in'', Translate NewCtx 0 0,
        Translate NewCtx 0 0, DrawTexture NewCtx 0 0 100 25,
        Composite NewCtx ''source-over'', Stroke NewCtx,
        DrawCanvas (- 50) (- 50)]"
  by (simp add: CompoundPath_fit_def CompoundPath_cover_def PointText_fit_def PointText_cover_def
      CompoundPath_draw_def CompoundPath_draw_flat_def CompoundPath_draw_textured_def
      CompoundPath_canvas_empty_def sample_path_def sample_style_def Math_round_def DEBUG_def
      texture_transform_def imageRatio_of_def rounded_ops exact_def Let_def)

text \<open>
  Claim C6, as the code has it. With a settings object that provides \<^verbatim>\<open>textWidth\<close>, an image
  ratio other than 0 and a cover fit of positive width and height, the size before scaling
  is \<^verbatim>\<open>Math.ceil(textWidth)\<close> by \<^verbatim>\<open>Math.ceil\<close> of that width divided by the ratio; when
  \<^verbatim>\<open>textHeight\<close> is provided as well and exceeds that height, the size is
  \<^verbatim>\<open>Math.ceil(textHeight * ratio)\<close> by \<^verbatim>\<open>Math.ceil(textHeight)\<close>. The quotient and the product
  are the rounded ones, whatever the rounding. The fit is this size with the offsets, the
  scaling and the position nudge applied.
\<close>

theorem explicit_extents_rounded_up:
  assumes tw: "textWidth s = Some tw" and r: "r \<noteq> 0"
    and p: "0 < widthImage (PointText_cover fl W H r)" "0 < heightImage (PointText_cover fl W H r)"
  shows "(let e = PointText_explicit_extents fl s r (PointText_cover fl W H r);
              dW = Math_ceil tw;
              dH = Math_ceil (fdiv fl dW r)
          in (case textHeight s of
                Some th \<Rightarrow>
                  if dH < th
                  then widthImage e = Math_ceil (fmul fl th r) \<and> heightImage e = Math_ceil th
                  else widthImage e = dW \<and> heightImage e = dH
              | None \<Rightarrow> widthImage e = dW \<and> heightImage e = dH)
           \<and> PointText_fit fl (Some s) W H r
               = position_nudge fl s (scale_fit fl s (base_offsets s e)))"
  using tw p
  by (simp add: PointText_explicit_extents_def PointText_fit_def Let_def split: option.splits)

theorem explicit_extents_rounded_up_witness:
  "(let s = no_settings\<lparr>textWidth := Some (201 / 2), textHeight := Some (121 / 2)\<rparr>;
        c = PointText_cover exact 10 10 2;
        e = PointText_explicit_extents exact s 2 c
    in textWidth s = Some (201 / 2) \<and> 0 < widthImage c \<and> 0 < heightImage c
     \<and> widthImage e = 121 \<and> heightImage e = 61
     \<and> widthImage (PointText_fit exact (Some s) 10 10 2) = 121
     \<and> heightImage (PointText_fit exact (Some s) 10 10 2) = 61)"
proof -
  let ?s = "no_settings\<lparr>textWidth := Some (201 / 2), textHeight := Some (121 / 2)\<rparr>"
  have tw: "textWidth ?s = Some (201 / 2)" by simp
  have th: "textHeight ?s = Some (121 / 2)" by simp
  have r: "(2::real) \<noteq> 0" by simp
  have c: "PointText_cover exact 10 10 2
      = \<lparr>leftImage = 0, topImage = 0, widthImage = 20, heightImage = 10\<rparr>"
    by (simp add: PointText_cover_def rounded_ops exact_def)
  have p: "0 < widthImage (PointText_cover exact 10 10 2)"
    "0 < heightImage (PointText_cover exact 10 10 2)"
    by (simp_all add: c)
  have m: "Math_ceil (201 / 2) = 101" "Math_ceil (101 / 2) = 51" "Math_ceil (121 / 2) = 61"
    "Math_ceil 121 = 121"
    by (simp_all add: Math_ceil_def)
  show ?thesis
    using explicit_extents_rounded_up[OF tw r p] p
    by (simp add: Let_def th m position_nudge_def scale_fit_def base_offsets_def no_settings_def
        rounded_ops exact_def)
qed

text \<open>
  For \<^verbatim>\<open>textWidth\<close> = 100.5 and an image ratio of 2 the fitted size is 101 by 51, not 100.5
  by 50.25.
\<close>

theorem explicit_extents_counterexample:
  "(let s = no_settings\<lparr>textWidth := Some (201 / 2)\<rparr>;
        f = PointText_fit exact (Some s) 10 10 2
    in widthImage f = 101 \<and> heightImage f = 51
     \<and> widthImage f \<noteq> 201 / 2 \<and> heightImage f \<noteq> (201 / 2) / 2)"
  by (simp add: PointText_fit_def PointText_cover_def PointText_explicit_extents_def
      base_offsets_def scale_fit_def position_nudge_def no_settings_def Math_ceil_def
      rounded_ops exact_def Let_def)

text \<open>
  The height follows the rounded quotient: for \<^verbatim>\<open>textWidth\<close> = 15, when the quotient of 15 and
  the image ratio is rounded to a double above 55 (as it is for an image of 300 by 1100),
  the height is 56.
\<close>

lemma explicit_extents_follow_rounding:
  assumes "textWidth s = Some 15" and "textHeight s = None"
    and "55 < fdiv fl 15 r" and "fdiv fl 15 r \<le> 56"
  shows "widthImage (PointText_explicit_extents fl s r f) = 15
       \<and> heightImage (PointText_explicit_extents fl s r f) = 56"
proof -
  have "\<lceil>fdiv fl 15 r\<rceil> = 56" using assms(3,4) by (simp add: ceiling_eq_iff)
  then show ?thesis
    using assms(1,2) by (simp add: PointText_explicit_extents_def Math_ceil_def)
qed

text \<open>
  The copy of PointText next to the example page compares the two extents with each other:
  for \<^verbatim>\<open>textWidth\<close> = 100, \<^verbatim>\<open>textHeight\<close> = 80 and an image ratio of 2 it keeps 100 by 50, where
  PointText.js switches to 160 by 80.
\<close>

lemma example_extents_compare_extents:
  "(let s = no_settings\<lparr>textWidth := Some 100, textHeight := Some 80\<rparr>;
        f = \<lparr>leftImage = 0, topImage = 0, widthImage = 10, heightImage = 10\<rparr>
    in PointText_example_explicit_extents exact s 2 f =
         \<lparr>leftImage = 0, topImage = 0, widthImage = 100, heightImage = 50\<rparr>
     \<and> PointText_explicit_extents exact s 2 f =
         \<lparr>leftImage = 0, topImage = 0, widthImage = 160, heightImage = 80\<rparr>)"
  by (simp add: PointText_example_explicit_extents_def PointText_explicit_extents_def
      no_settings_def Math_ceil_def rounded_ops exact_def Let_def)


section \<open>Properties of the draw\<close>





text \<open>Without rounding, a positive box and image ratio give a positive cover fit.\<close>

lemma cover_positive:
  assumes "0 < W" "0 < H" "0 < r"
  shows "0 < widthImage (PointText_cover exact W H r)
       \<and> 0 < heightImage (PointText_cover exact W H r)
       \<and> 0 < widthImage (CompoundPath_cover exact W H r)
       \<and> 0 < heightImage (CompoundPath_cover exact W H r)"
  using assms
  by (simp add: PointText_cover_def CompoundPath_cover_def rounded_ops exact_def Let_def)




lemma Math_round_positive: "0 < Math_round v \<Longrightarrow> 0 < v"
proof -
  assume "0 < Math_round v"
  then have "0 < \<lfloor>v + 1 / 2\<rfloor>" by (simp add: Math_round_def)
  then have "1 \<le> v + 1 / 2" by linarith
  then show ?thesis by simp
qed

lemma rounds_positive: "rounds fl \<Longrightarrow> 0 < fl v \<Longrightarrow> 0 < v"
proof (rule ccontr)
  assume r: "rounds fl" and p: "0 < fl v" and n: "\<not> 0 < v"
  from r have m: "mono fl" and z: "fl 0 = 0" by (simp_all add: rounds_def)
  from n have "v \<le> 0" by simp
  then have "fl v \<le> fl 0" by (rule monoD[OF m])
  with z p show False by simp
qed

lemma rounds_plus_100: "rounds fl \<Longrightarrow> 0 < v \<Longrightarrow> 0 < fadd fl v 100"
proof -
  assume r: "rounds fl" and v: "0 < v"
  from r have m: "mono fl" and h: "fl 100 = 100" by (simp_all add: rounds_def)
  from v have "100 \<le> v + 100" by simp
  then have "fl 100 \<le> fl (v + 100)" by (rule monoD[OF m])
  with h show ?thesis by (simp add: fadd_def)
qed

lemma texture_transform_calls:
  "c \<in> set (texture_transform fl so f) \<Longrightarrow>
   \<not> is_DrawTexture c \<and> \<not> is_GetContext c \<and> nonempty_surface c \<and> c \<noteq> Release"
  by (auto simp: texture_transform_def split: option.splits if_splits)

lemma PointText_draw_line_calls:
  assumes "c \<in> set (PointText_draw_line fl t l)"
  shows "nonempty_surface c" and "PointText_degenerate fl t \<Longrightarrow> \<not> is_DrawTexture c"
proof -
  show "nonempty_surface c"
    using assms
    by (auto simp: PointText_draw_line_def Let_def DEBUG_def not_le
        split: option.splits if_splits dest: texture_transform_calls)
  show "\<not> is_DrawTexture c" if "PointText_degenerate fl t"
    using assms that
    by (auto simp: PointText_draw_line_def PointText_degenerate_def Let_def DEBUG_def
        split: option.splits if_splits dest: texture_transform_calls)
qed

lemma PointText_draw_calls:
  assumes "c \<in> set (PointText_draw fl t)"
  shows "nonempty_surface c" and "PointText_degenerate fl t \<Longrightarrow> \<not> is_DrawTexture c"
  using assms PointText_draw_line_calls[of c fl t]
  by (auto simp: PointText_draw_def split: if_splits)

lemma CompoundPath_canvas_bounds:
  assumes r: "rounds fl" and e: "\<not> CompoundPath_canvas_empty fl p"
  shows "0 < width (bounds p)" and "0 < height (bounds p)"
proof -
  let ?W = "width (bounds p)" and ?H = "height (bounds p)"
  let ?k = "max 5 (fdiv fl ?W 50)"
  have k: "0 < ?k" by simp
  from e have "0 < Math_round (fmul fl ?W ?k)"
    and "0 < Math_round (fmul fl (fmul fl ?H ?k) 1.5)"
    by (simp_all add: CompoundPath_canvas_empty_def Let_def not_le)
  then have a: "0 < fl (?W * ?k)" and b: "0 < fl (fl (?H * ?k) * 1.5)"
    by (auto dest: Math_round_positive simp: fmul_def)
  from a have "0 < ?W * ?k" by (rule rounds_positive[OF r])
  with k show "0 < ?W" by (simp add: zero_less_mult_iff)
  from b have "0 < fl (?H * ?k) * 1.5" by (rule rounds_positive[OF r])
  then have "0 < fl (?H * ?k)" by simp
  then have "0 < ?H * ?k" by (rule rounds_positive[OF r])
  with k show "0 < ?H" by (simp add: zero_less_mult_iff)
qed

lemma CompoundPath_draw_GetContext:
  assumes "c \<in> set (CompoundPath_draw fl p clip)" and "is_GetContext c"
  shows "\<not> CompoundPath_canvas_empty fl p
       \<and> c = GetContext (fadd fl (width (bounds p)) 100) (fadd fl (height (bounds p)) 100)"
  using assms
  by (auto simp: CompoundPath_draw_def CompoundPath_draw_flat_def CompoundPath_draw_textured_def
      Let_def DEBUG_def split: option.splits if_splits dest: texture_transform_calls)

lemma CompoundPath_draw_calls:
  assumes "c \<in> set (CompoundPath_draw fl p clip)"
  shows "rounds fl \<Longrightarrow> nonempty_surface c" and "c \<noteq> Release"
    and "CompoundPath_degenerate fl p \<Longrightarrow> \<not> is_DrawTexture c"
proof -
  show "nonempty_surface c" if r: "rounds fl"
  proof (cases "is_GetContext c")
    case True
    from CompoundPath_draw_GetContext[OF assms True]
    have e: "\<not> CompoundPath_canvas_empty fl p"
      and c: "c = GetContext (fadd fl (width (bounds p)) 100) (fadd fl (height (bounds p)) 100)"
      by simp_all
    from CompoundPath_canvas_bounds[OF r e]
    have "0 < fadd fl (width (bounds p)) 100" and "0 < fadd fl (height (bounds p)) 100"
      by (simp_all add: rounds_plus_100[OF r])
    with c show ?thesis by simp
  next
    case False
    then show ?thesis by (cases c) simp_all
  qed
  show "c \<noteq> Release"
    using assms
    by (auto simp: CompoundPath_draw_def CompoundPath_draw_flat_def CompoundPath_draw_textured_def
        Let_def DEBUG_def split: option.splits if_splits dest: texture_transform_calls)
  show "\<not> is_DrawTexture c" if "CompoundPath_degenerate fl p"
    using assms that
    by (auto simp: CompoundPath_draw_def CompoundPath_draw_flat_def CompoundPath_draw_textured_def
        CompoundPath_degenerate_def Let_def DEBUG_def
        split: option.splits if_splits dest: texture_transform_calls)
qed

lemma CompoundPath_draw_degenerate:
  assumes "fillImage p = Some bitmap" and "CompoundPath_degenerate fl p"
    and "children p \<noteq> 0" and "\<not> CompoundPath_canvas_empty fl p"
  shows "CompoundPath_draw fl p clip =
           BeginPath Ctx # map (DrawChild Ctx) [0..<children p] @ painted_without_texture fl p bitmap"
  using assms
  by (auto simp: CompoundPath_draw_def CompoundPath_draw_flat_def CompoundPath_draw_textured_def
      CompoundPath_degenerate_def painted_without_texture_def Let_def DEBUG_def)

lemma CompoundPath_draw_empty:
  assumes "fillImage p \<noteq> None" and "children p \<noteq> 0" and "CompoundPath_canvas_empty fl p"
  shows "CompoundPath_draw fl p clip = BeginPath Ctx # map (DrawChild Ctx) [0..<children p]"
  using assms
  by (auto simp: CompoundPath_draw_def CompoundPath_draw_flat_def CompoundPath_draw_textured_def)

text \<open>
  Claim C8: every offscreen canvas obtained from \<^verbatim>\<open>CanvasProvider.getContext\<close> is given back
  by \<^verbatim>\<open>CanvasProvider.release\<close> on every path of the draw. The draw of a compound path never
  calls \<^verbatim>\<open>release\<close>, although it obtains a canvas; the draw of a point text obtains a canvas
  and calls \<^verbatim>\<open>release\<close> only inside the branch that draws the texture, so the canvas is kept
  when the fit is degenerate (here by a scaling of 0). In the second run the factor written
  1/5 is, in the code, the double nearest to it.
\<close>

theorem offscreen_surface_not_released:
  "Release \<notin> set (CompoundPath_draw fl p clip)
   \<and> list_ex is_GetContext (CompoundPath_draw exact (sample_path None) False)
   \<and> PointText_draw exact
       (sample_text (Some (no_settings\<lparr>syncRatio := True, scaling := Some 0\<rparr>))) =
       [SetStyles Ctx, GetContext 550 90, SetStyles NewCtx, Scale NewCtx 5 5,
        Translate NewCtx 0 12, FillText NewCtx ''Hi'', Translate NewCtx 0 (- 9),
        Composite NewCtx ''source-atop'', Translate NewCtx 0 0,
        Translate Ctx 0 12]
   \<and> PointText_draw exact (sample_text None) =
       [SetStyles Ctx, GetContext 550 90, SetStyles NewCtx, Scale NewCtx 5 5,
        Translate NewCtx 0 12, FillText NewCtx ''Hi'', Translate NewCtx 0 (- 9),
        Composite NewCtx ''source-atop'', Translate NewCtx 0 0,
        DrawTexture NewCtx 0 0 100 25, Translate Ctx 0 (- 12),
        Scale Ctx (1 / 5) (1 / 5), DrawCanvas 0 0, Scale Ctx 5 5,
        Translate Ctx 0 12, Release, Translate Ctx 0 12]"
proof -
  have 1: "Release \<notin> set (CompoundPath_draw fl p clip)"
    using CompoundPath_draw_calls(2)[of Release fl p clip] by blast
  have 2: "list_ex is_GetContext (CompoundPath_draw exact (sample_path None) False)"
    by (simp add: CompoundPath_draw_def CompoundPath_draw_flat_def CompoundPath_draw_textured_def
        CompoundPath_canvas_empty_def sample_path_def sample_style_def Math_round_def
        rounded_ops exact_def Let_def)
  have 3: "PointText_draw exact
       (sample_text (Some (no_settings\<lparr>syncRatio := True, scaling := Some 0\<rparr>))) =
       [SetStyles Ctx, GetContext 550 90, SetStyles NewCtx, Scale NewCtx 5 5,
        Translate NewCtx 0 12, FillText NewCtx ''Hi'', Translate NewCtx 0 (- 9),
        Composite NewCtx ''source-atop'', Translate NewCtx 0 0,
        Translate Ctx 0 12]"
    by (simp add: PointText_draw_def PointText_draw_line_def getBounds_def sample_text_def
        sample_style_def no_settings_def Math_round_def Math_ceil_def PointText_fit_def
        PointText_cover_def PointText_explicit_extents_def base_offsets_def scale_fit_def
        position_nudge_def texture_transform_def imageRatio_of_def rounded_ops exact_def Let_def)
  have 4: "PointText_draw exact (sample_text None) =
       [SetStyles Ctx, GetContext 550 90, SetStyles NewCtx, Scale NewCtx 5 5,
        Translate NewCtx 0 12, FillText NewCtx ''Hi'', Translate NewCtx 0 (- 9),
        Composite NewCtx ''source-atop'', Translate NewCtx 0 0,
        DrawTexture NewCtx 0 0 100 25, Translate Ctx 0 (- 12),
        Scale Ctx (1 / 5) (1 / 5), DrawCanvas 0 0, Scale Ctx 5 5,
        Translate Ctx 0 12, Release, Translate Ctx 0 12]"
    by (simp add: PointText_draw_def PointText_draw_line_def getBounds_def sample_text_def
        sample_style_def Math_round_def Math_ceil_def PointText_fit_def
        PointText_cover_def texture_transform_def DEBUG_def imageRatio_of_def rounded_ops
        exact_def Let_def)
  from 1 2 3 4 show ?thesis by blast
qed

text \<open>
  Claim C9, as the code has it. When the fit is degenerate (and the image ratio is defined),
  neither draw calls \<^verbatim>\<open>drawImage\<close> with the texture, and no draw ever asks for an offscreen
  canvas of width or height 0 or less. A compound path whose canvas estimate is not empty
  then does everything else in order: it fills its path on the offscreen canvas before the
  switch to \<^verbatim>\<open>source-in\<close>, strokes it after the switch back to \<^verbatim>\<open>source-over\<close> and copies
  the canvas to the target last. One whose canvas estimate is empty only rebuilds its path
  on the target and paints nothing.
\<close>

theorem degenerate_fit_skips_texture:
  "(ratio_defined fl t \<and> PointText_degenerate fl t \<longrightarrow>
      \<not> list_ex is_DrawTexture (PointText_draw fl t))
   \<and> list_all nonempty_surface (PointText_draw fl t)
   \<and> (ratio_defined fl p \<and> CompoundPath_degenerate fl p \<longrightarrow>
        \<not> list_ex is_DrawTexture (CompoundPath_draw fl p clip))
   \<and> (rounds fl \<longrightarrow> list_all nonempty_surface (CompoundPath_draw fl p clip))
   \<and> (ratio_defined fl p \<and> fillImage p = Some bitmap \<and> CompoundPath_degenerate fl p
        \<and> children p \<noteq> 0 \<and> \<not> CompoundPath_canvas_empty fl p \<longrightarrow>
        CompoundPath_draw fl p clip =
          BeginPath Ctx # map (DrawChild Ctx) [0..<children p] @
          painted_without_texture fl p bitmap)
   \<and> (fillImage p \<noteq> None \<and> children p \<noteq> 0 \<and> CompoundPath_canvas_empty fl p \<longrightarrow>
        CompoundPath_draw fl p clip = BeginPath Ctx # map (DrawChild Ctx) [0..<children p])"
proof -
  have 1: "PointText_degenerate fl t \<longrightarrow> \<not> list_ex is_DrawTexture (PointText_draw fl t)"
    using PointText_draw_calls(2)[of _ fl t] by (auto simp: list_ex_iff)
  have 2: "list_all nonempty_surface (PointText_draw fl t)"
    using PointText_draw_calls(1)[of _ fl t] by (auto simp: list_all_iff)
  have 3: "CompoundPath_degenerate fl p \<longrightarrow>
      \<not> list_ex is_DrawTexture (CompoundPath_draw fl p clip)"
    using CompoundPath_draw_calls(3)[of _ fl p clip] by (auto simp: list_ex_iff)
  have 4: "rounds fl \<longrightarrow> list_all nonempty_surface (CompoundPath_draw fl p clip)"
    using CompoundPath_draw_calls(1)[of _ fl p clip] by (auto simp: list_all_iff)
  from 1 2 3 4 CompoundPath_draw_degenerate[of p bitmap fl clip]
    CompoundPath_draw_empty[of p fl clip]
  show ?thesis by blast
qed

theorem degenerate_fit_skips_texture_witness:
  "(let so = Some (no_settings\<lparr>syncRatio := True, scaling := Some 0\<rparr>);
        t = sample_text so;
        p = sample_path so;
        q = (sample_path None)\<lparr>bounds := \<lparr>rect_x = 0, rect_y = 0, width = 100, height = 0\<rparr>\<rparr>
    in rounds exact
     \<and> ratio_defined exact t \<and> PointText_degenerate exact t
     \<and> \<not> list_ex is_DrawTexture (PointText_draw exact t)
     \<and> list_all nonempty_surface (PointText_draw exact t)
     \<and> ratio_defined exact p \<and> CompoundPath_degenerate exact p
     \<and> children p \<noteq> 0 \<and> \<not> CompoundPath_canvas_empty exact p
     \<and> \<not> list_ex is_DrawTexture (CompoundPath_draw exact p False)
     \<and> list_all nonempty_surface (CompoundPath_draw exact p False)
     \<and> CompoundPath_draw exact p False =
         [BeginPath Ctx, DrawChild Ctx 0, GetContext 200 150, SetStyles NewCtx,
          Translate NewCtx 50 50, DrawChild NewCtx 0, Fill NewCtx ''nonzero'',
          Composite NewCtx ''source-in'', Translate NewCtx 0 0,
          Translate NewCtx 0 0,
          Composite NewCtx ''source-over'', Stroke NewCtx,
          DrawCanvas (- 50) (- 50)]
     \<and> fillImage q \<noteq> None \<and> children q \<noteq> 0 \<and> CompoundPath_canvas_empty exact q
     \<and> CompoundPath_draw exact q False = [BeginPath Ctx, DrawChild Ctx 0])"
proof -
  let ?so = "Some (no_settings\<lparr>syncRatio := True, scaling := Some 0\<rparr>)"
  let ?t = "sample_text ?so" and ?p = "sample_path ?so"
  let ?q = "(sample_path None)\<lparr>bounds := \<lparr>rect_x = 0, rect_y = 0, width = 100, height = 0\<rparr>\<rparr>"
  let ?b = "\<lparr>bitmapWidth = 400, bitmapHeight = 100\<rparr>"
  have ro: "rounds exact" by (simp add: rounds_def exact_def mono_def)
  have rt: "ratio_defined exact ?t" and rp: "ratio_defined exact ?p"
    by (simp_all add: ratio_defined_def sample_text_def sample_path_def imageRatio_of_def
        rounded_ops exact_def)
  have dt: "PointText_degenerate exact ?t"
    by (simp add: PointText_degenerate_def sample_text_def sample_style_def getBounds_def
        PointText_fit_def PointText_cover_def PointText_explicit_extents_def base_offsets_def
        scale_fit_def position_nudge_def no_settings_def imageRatio_of_def rounded_ops
        exact_def Let_def)
  have dp: "CompoundPath_degenerate exact ?p"
    by (simp add: CompoundPath_degenerate_def sample_path_def CompoundPath_fit_def
        CompoundPath_cover_def scale_fit_def position_nudge_def no_settings_def
        imageRatio_of_def rounded_ops exact_def Let_def)
  have cp: "fillImage ?p = Some ?b" "children ?p = 1" "\<not> CompoundPath_canvas_empty exact ?p"
    by (simp_all add: sample_path_def CompoundPath_canvas_empty_def Math_round_def
        rounded_ops exact_def Let_def)
  have cq: "fillImage ?q \<noteq> None" "children ?q = 1" "CompoundPath_canvas_empty exact ?q"
    by (simp_all add: sample_path_def CompoundPath_canvas_empty_def Math_round_def
        rounded_ops exact_def Let_def)
  have pw: "painted_without_texture exact ?p ?b =
         [GetContext 200 150, SetStyles NewCtx,
          Translate NewCtx 50 50, DrawChild NewCtx 0, Fill NewCtx ''nonzero'',
          Composite NewCtx ''source-in'', Translate NewCtx 0 0,
          Translate NewCtx 0 0,
          Composite NewCtx ''source-over'', Stroke NewCtx,
          DrawCanvas (- 50) (- 50)]"
    by (simp add: painted_without_texture_def sample_path_def sample_style_def
        CompoundPath_fit_def CompoundPath_cover_def scale_fit_def position_nudge_def
        no_settings_def texture_transform_def imageRatio_of_def rounded_ops exact_def Let_def)
  show ?thesis
    unfolding Let_def
    using ro rt rp dt dp cp cq pw
      degenerate_fit_skips_texture[of exact ?t ?p False ?b]
      degenerate_fit_skips_texture[of exact ?t ?q False ?b]
    by simp
qed

text \<open>
  Shapes with a texture set, a fill and a stroke, for which nothing is painted: a compound
  path whose bounds have height 0, and a point text with a leading of 0.
\<close>

theorem degenerate_shape_not_painted_counterexample:
  "(let q = (sample_path None)\<lparr>bounds := \<lparr>rect_x = 0, rect_y = 0, width = 100, height = 0\<rparr>\<rparr>;
        t = (sample_text None)\<lparr>style := sample_style\<lparr>leading := 0\<rparr>\<rparr>
    in CompoundPath_degenerate exact q \<and> hasFill (style q) \<and> hasStroke (style q)
     \<and> CompoundPath_draw exact q False = [BeginPath Ctx, DrawChild Ctx 0]
     \<and> PointText_degenerate exact t \<and> hasFill (style t) \<and> hasStroke (style t)
     \<and> PointText_draw exact t = [SetStyles Ctx])"
  by (simp add: CompoundPath_degenerate_def CompoundPath_draw_def CompoundPath_draw_flat_def
      CompoundPath_draw_textured_def CompoundPath_canvas_empty_def sample_path_def
      PointText_degenerate_def PointText_draw_def PointText_draw_line_def getBounds_def
      sample_text_def sample_style_def Math_round_def Math_ceil_def rounded_ops exact_def
      Let_def)

end
